theory Spec2Isabelle
  imports Complex_Main
begin

section \<open>Strings and the format pattern of \<^verbatim>\<open>input-validation.ts\<close>\<close>

text \<open>
  A JavaScript string is modelled as a \<^typ>\<open>string\<close>: the list of its code units, each
  below 256. The empty string is the only falsy string, so \<^verbatim>\<open>!value\<close> is \<open>value = []\<close>.
\<close>

definition isDigit :: "char \<Rightarrow> bool" where
  "isDigit c \<longleftrightarrow> c \<in> set ''0123456789''"

text \<open>
  The regular expressions of the source are values of \<open>regex\<close>. \<open>Digit\<close> is \<^verbatim>\<open>\d\<close>
  (the ten ASCII digits), \<open>Lit c\<close> a literal character, \<open>Opt r\<close> is \<^verbatim>\<open>r?\<close> and
  \<open>Star r\<close> is \<^verbatim>\<open>r*\<close>. \<open>Never\<close> matches nothing and \<open>Eps\<close> only the empty
  string; both arise when a pattern is advanced over a character.
\<close>

datatype regex =
    Never
  | Eps
  | Digit
  | Lit char
  | Alt regex regex
  | Seq regex regex
  | Star regex

abbreviation Opt :: "regex \<Rightarrow> regex" where
  "Opt r \<equiv> Alt r Eps"

fun nullable :: "regex \<Rightarrow> bool" where
  "nullable Never = False"
| "nullable Eps = True"
| "nullable Digit = False"
| "nullable (Lit c) = False"
| "nullable (Alt r s) = (nullable r \<or> nullable s)"
| "nullable (Seq r s) = (nullable r \<and> nullable s)"
| "nullable (Star r) = True"

fun advance :: "char \<Rightarrow> regex \<Rightarrow> regex" where
  "advance c Never = Never"
| "advance c Eps = Never"
| "advance c Digit = (if isDigit c then Eps else Never)"
| "advance c (Lit d) = (if c = d then Eps else Never)"
| "advance c (Alt r s) = Alt (advance c r) (advance c s)"
| "advance c (Seq r s) =
     (if nullable r then Alt (Seq (advance c r) s) (advance c s) else Seq (advance c r) s)"
| "advance c (Star r) = Seq (advance c r) (Star r)"

text \<open>
  \<^verbatim>\<open>/^r$/.test(v)\<close>: the pattern is anchored at both ends and has no flags, so the test
  succeeds exactly when the whole of \<open>v\<close> is matched by \<open>r\<close>.
\<close>

fun test :: "regex \<Rightarrow> string \<Rightarrow> bool" where
  "test r [] = nullable r"
| "test r (c # cs) = test (advance c r) cs"

text \<open>The pattern \<^verbatim>\<open>/^\d*\.?\d*$/\<close> of \<^verbatim>\<open>isNumericInput\<close>.\<close>

definition numericPattern :: regex where
  "numericPattern = Seq (Star Digit) (Seq (Opt (Lit (CHR ''.''))) (Star Digit))"

definition isNumericInput :: "string \<Rightarrow> bool" where
  "isNumericInput v = (if v = [] then True else test numericPattern v)"

definition NUMBERS_ONLY :: string where
  "NUMBERS_ONLY = ''Please enter numbers only''"

definition INSUFFICIENT_ETH :: string where
  "INSUFFICIENT_ETH = ''Insufficient ETH balance''"

definition INSUFFICIENT_USDT :: string where
  "INSUFFICIENT_USDT = ''Insufficient USDT balance''"

section \<open>JavaScript numbers\<close>

text \<open>
  A \<^verbatim>\<open>number\<close> is an IEEE 754 binary64 value: not-a-number, one of the two infinities,
  or a finite value \<open>Fin r\<close> with \<open>r\<close> a real of the form \<open>m * 2 ^ e\<close>, \<open>\<bar>m\<bar> < 2 ^ 53\<close>
  and \<open>- 1074 \<le> e \<le> 971\<close>. The two zeros are identified: no operation of this program
  tells them apart (there is no division by a variable, and \<^verbatim>\<open>toFixed\<close>, the comparisons,
  \<^verbatim>\<open>Math.max\<close> against 5 and \<^verbatim>\<open>Math.round\<close> agree on them).
\<close>

datatype number = NaN | PosInf | NegInf | Fin real

text \<open>\<open>bits n\<close> is the length of the binary numeral of \<open>n\<close>.\<close>

fun bits :: "nat \<Rightarrow> nat" where
  "bits n = (if n = 0 then 0 else Suc (bits (n div 2)))"

declare bits.simps [simp del]

text \<open>The binary exponent of a positive real: \<open>2 powi expo a \<le> a < 2 powi (expo a + 1)\<close>.\<close>

definition expo :: "real \<Rightarrow> int" where
  "expo a = (if 1 \<le> a then int (bits (nat \<lfloor>a\<rfloor>)) - 1
             else - int (bits (nat (\<lceil>1 / a\<rceil> - 1))))"

definition roundHalfEven :: "real \<Rightarrow> int" where
  "roundHalfEven t =
     (let f = \<lfloor>t\<rfloor>; d = t - of_int f
      in if d < 1 / 2 then f else if 1 / 2 < d then f + 1 else if even f then f else f + 1)"

text \<open>
  The spacing of the binary64 values around a positive real: 52 fraction bits below the
  leading bit, and the fixed spacing \<open>2 powi - 1074\<close> of the subnormal range.
\<close>

definition quantum :: "real \<Rightarrow> real" where
  "quantum a = 2 powi (max (expo a) (- 1022) - 52)"

text \<open>
  Rounding of an exact real result to binary64, to nearest with ties to even, overflowing
  to an infinity. Every arithmetic operation and every numeric literal goes through it.
\<close>

definition rd :: "real \<Rightarrow> number" where
  "rd r =
     (if r = 0 then Fin 0
      else let a = \<bar>r\<bar>; q = quantum a; v = of_int (roundHalfEven (a / q)) * q
           in if 2 ^ 1024 \<le> v then (if 0 < r then PosInf else NegInf)
              else Fin (if 0 < r then v else - v))"

fun isNaN :: "number \<Rightarrow> bool" where
  "isNaN NaN = True"
| "isNaN x = False"

text \<open>\<^verbatim>\<open>x * y\<close>\<close>

fun nmul :: "number \<Rightarrow> number \<Rightarrow> number" where
  "nmul NaN y = NaN"
| "nmul x NaN = NaN"
| "nmul (Fin a) (Fin b) = rd (a * b)"
| "nmul (Fin a) PosInf = (if a = 0 then NaN else if 0 < a then PosInf else NegInf)"
| "nmul (Fin a) NegInf = (if a = 0 then NaN else if 0 < a then NegInf else PosInf)"
| "nmul PosInf (Fin b) = (if b = 0 then NaN else if 0 < b then PosInf else NegInf)"
| "nmul NegInf (Fin b) = (if b = 0 then NaN else if 0 < b then NegInf else PosInf)"
| "nmul PosInf PosInf = PosInf"
| "nmul PosInf NegInf = NegInf"
| "nmul NegInf PosInf = NegInf"
| "nmul NegInf NegInf = PosInf"

text \<open>\<^verbatim>\<open>x + y\<close>\<close>

fun nadd :: "number \<Rightarrow> number \<Rightarrow> number" where
  "nadd NaN y = NaN"
| "nadd x NaN = NaN"
| "nadd (Fin a) (Fin b) = rd (a + b)"
| "nadd PosInf NegInf = NaN"
| "nadd NegInf PosInf = NaN"
| "nadd PosInf y = PosInf"
| "nadd NegInf y = NegInf"
| "nadd x PosInf = PosInf"
| "nadd x NegInf = NegInf"

text \<open>
  \<^verbatim>\<open>x / y\<close>. A zero divisor is taken as \<open>+0\<close>; the only division of the program is
  \<^verbatim>\<open>1 / 2184.33\<close>.
\<close>

fun ndiv :: "number \<Rightarrow> number \<Rightarrow> number" where
  "ndiv NaN y = NaN"
| "ndiv x NaN = NaN"
| "ndiv (Fin a) (Fin b) =
     (if b = 0 then (if a = 0 then NaN else if 0 < a then PosInf else NegInf) else rd (a / b))"
| "ndiv (Fin a) y = Fin 0"
| "ndiv PosInf (Fin b) = (if 0 \<le> b then PosInf else NegInf)"
| "ndiv NegInf (Fin b) = (if 0 \<le> b then NegInf else PosInf)"
| "ndiv x y = NaN"

text \<open>\<^verbatim>\<open>x <= y\<close> and \<^verbatim>\<open>x > y\<close>: false whenever an operand is \<open>NaN\<close>.\<close>

fun nle :: "number \<Rightarrow> number \<Rightarrow> bool" where
  "nle NaN y = False"
| "nle x NaN = False"
| "nle NegInf y = True"
| "nle x PosInf = True"
| "nle PosInf y = False"
| "nle x NegInf = False"
| "nle (Fin a) (Fin b) = (a \<le> b)"

fun ngt :: "number \<Rightarrow> number \<Rightarrow> bool" where
  "ngt NaN y = False"
| "ngt x NaN = False"
| "ngt x y = (\<not> nle x y)"

text \<open>\<^verbatim>\<open>Math.max\<close>, \<^verbatim>\<open>Math.min\<close>: \<open>NaN\<close> if an argument is \<open>NaN\<close>.\<close>

fun nmax :: "number \<Rightarrow> number \<Rightarrow> number" where
  "nmax NaN y = NaN"
| "nmax x NaN = NaN"
| "nmax x y = (if nle x y then y else x)"

fun nmin :: "number \<Rightarrow> number \<Rightarrow> number" where
  "nmin NaN y = NaN"
| "nmin x NaN = NaN"
| "nmin x y = (if nle x y then x else y)"

text \<open>
  \<^verbatim>\<open>Math.round\<close>: the nearest integer, the one closer to \<open>+\<infinity>\<close> of two equally near.
  The result is exact.
\<close>

fun nround :: "number \<Rightarrow> number" where
  "nround (Fin a) = Fin (of_int \<lfloor>a + 1 / 2\<rfloor>)"
| "nround x = x"

section \<open>Reading and writing numbers\<close>

definition digitVal :: "char \<Rightarrow> nat" where
  "digitVal c = of_char c - 48"

definition digitsVal :: "string \<Rightarrow> nat" where
  "digitsVal ds = foldl (\<lambda>n c. 10 * n + digitVal c) 0 ds"

text \<open>
  The white space and line terminators that \<^verbatim>\<open>parseFloat\<close> skips, among the code units
  below 256: TAB, LF, VT, FF, CR, SP and NBSP.
\<close>

definition isWhiteSpace :: "char \<Rightarrow> bool" where
  "isWhiteSpace c \<longleftrightarrow> (of_char c :: nat) \<in> {9, 10, 11, 12, 13, 32, 160}"

text \<open>
  The exponent part of a decimal literal, read off the text after the mantissa: an \<open>e\<close> or
  \<open>E\<close>, an optional sign and at least one digit. Anything else is no exponent part.
\<close>

definition exponentPart :: "string \<Rightarrow> int" where
  "exponentPart r =
     (case r of
        [] \<Rightarrow> 0
      | c # r' \<Rightarrow>
          if c = CHR ''e'' \<or> c = CHR ''E'' then
            (case r' of
               [] \<Rightarrow> 0
             | s # r'' \<Rightarrow>
                 if s = CHR ''-'' then - int (digitsVal (takeWhile isDigit r''))
                 else if s = CHR ''+'' then int (digitsVal (takeWhile isDigit r''))
                 else int (digitsVal (takeWhile isDigit r')))
          else 0)"

text \<open>
  The longest prefix of \<open>u\<close> that is an unsigned decimal literal
  (\<^verbatim>\<open>digits . digits? exp?\<close>, \<^verbatim>\<open>. digits exp?\<close> or \<^verbatim>\<open>digits exp?\<close>), as its exact value;
  \<open>None\<close> when no prefix is one.
\<close>

definition unsignedDecimal :: "string \<Rightarrow> real option" where
  "unsignedDecimal u =
     (let ip = takeWhile isDigit u;
          r1 = dropWhile isDigit u;
          fp = (case r1 of [] \<Rightarrow> [] | c # r \<Rightarrow> if c = CHR ''.'' then takeWhile isDigit r else []);
          r2 = (case r1 of [] \<Rightarrow> [] | c # r \<Rightarrow> if c = CHR ''.'' then dropWhile isDigit r else r1)
      in if ip = [] \<and> fp = [] then None
         else Some ((real (digitsVal ip) + real (digitsVal fp) / 10 ^ length fp)
                      * 10 powi exponentPart r2))"

text \<open>
  \<^verbatim>\<open>Number.parseFloat\<close>: skip leading white space, read the longest prefix that is a
  signed decimal literal or a signed \<^verbatim>\<open>Infinity\<close>, and round its exact value to binary64;
  \<open>NaN\<close> when there is no such prefix.
\<close>

definition parseFloat :: "string \<Rightarrow> number" where
  "parseFloat s =
     (let t = dropWhile isWhiteSpace s;
          neg = (t \<noteq> [] \<and> hd t = CHR ''-'');
          u = (if t \<noteq> [] \<and> (hd t = CHR ''-'' \<or> hd t = CHR ''+'') then tl t else t)
      in if take 8 u = ''Infinity'' then (if neg then NegInf else PosInf)
         else (case unsignedDecimal u of
                 None \<Rightarrow> NaN
               | Some v \<Rightarrow> rd (if neg then - v else v)))"

definition digitChar :: "nat \<Rightarrow> char" where
  "digitChar d = ''0123456789'' ! d"

text \<open>The decimal digits of a natural number, without leading zeros; \<open>''0''\<close> for zero.\<close>

fun showNat :: "nat \<Rightarrow> string" where
  "showNat n = (if n < 10 then [digitChar n] else showNat (n div 10) @ [digitChar (n mod 10)])"

declare showNat.simps [simp del]

text \<open>
  \<^verbatim>\<open>Number::toString\<close> for a finite value \<open>a \<ge> 10 ^ 21\<close>, the only finite values on which
  \<^verbatim>\<open>toFixed\<close> calls it: the shortest digit string \<open>s\<close> of \<open>k\<close> digits with \<open>s * 10 ^ (n - k)\<close>
  rounding to \<open>a\<close>, of two the one nearer to \<open>a\<close>, printed in exponent notation.
  \<open>shortestAt a n k\<close> is the candidate with exactly \<open>k\<close> digits, if there is one.
\<close>

definition shortestAt :: "real \<Rightarrow> nat \<Rightarrow> nat \<Rightarrow> nat option" where
  "shortestAt a n k =
     (let sc = 10 ^ (n - k);
          lo = nat \<lfloor>a / real sc\<rfloor>;
          hi = lo + 1;
          okLo = (10 ^ (k - 1) \<le> lo \<and> rd (real (lo * sc)) = Fin a);
          okHi = (rd (real (hi * sc)) = Fin a)
      in if okLo \<and> okHi then
           (if a - real (lo * sc) < real (hi * sc) - a then Some lo
            else if real (hi * sc) - a < a - real (lo * sc) then Some hi
            else if even lo then Some lo else Some hi)
         else if okLo then Some lo
         else if okHi then Some hi
         else None)"

function shortestFrom :: "real \<Rightarrow> nat \<Rightarrow> nat \<Rightarrow> nat \<times> nat" where
  "shortestFrom a n k =
     (if n \<le> k then (nat \<lfloor>a\<rfloor>, n)
      else (case shortestAt a n k of
              Some s \<Rightarrow> (s, k)
            | None \<Rightarrow> shortestFrom a n (Suc k)))"
  by pat_completeness auto
termination
  by (relation "measure (\<lambda>(a, n, k). n - k)") auto

declare shortestFrom.simps [simp del]

definition toStringLarge :: "real \<Rightarrow> string" where
  "toStringLarge a =
     (let n = length (showNat (nat \<lfloor>a\<rfloor>));
          (s, k) = shortestFrom a n 1;
          ds = (if s = 10 ^ k then ''1'' else showNat s);
          ex = (if s = 10 ^ k then n else n - 1)
      in (if length ds = 1 then ds else take 1 ds @ ''.'' @ drop 1 ds)
           @ ''e+'' @ showNat ex)"

text \<open>
  \<^verbatim>\<open>x.toFixed(f)\<close> for \<open>0 \<le> f \<le> 100\<close>: \<open>n\<close> is the integer with \<open>n / 10 ^ f\<close> nearest to the
  exact value of \<open>x\<close>, the larger of two; values from \<open>10 ^ 21\<close> on take the form of
  \<^verbatim>\<open>Number::toString\<close>.
\<close>

definition toFixed :: "number \<Rightarrow> nat \<Rightarrow> string" where
  "toFixed x f =
     (case x of
        NaN \<Rightarrow> ''NaN''
      | PosInf \<Rightarrow> ''Infinity''
      | NegInf \<Rightarrow> ''-Infinity''
      | Fin r \<Rightarrow>
          (let sg = (if r < 0 then ''-'' else []);
               a = \<bar>r\<bar>
           in if 10 ^ 21 \<le> a then sg @ toStringLarge a
              else let n = nat \<lfloor>a * 10 ^ f + 1 / 2\<rfloor>;
                       m = showNat n;
                       m' = (if f \<noteq> 0 \<and> length m \<le> f
                             then replicate (f + 1 - length m) (CHR ''0'') @ m else m)
                   in sg @ (if f \<noteq> 0
                            then take (length m' - f) m' @ ''.'' @ drop (length m' - f) m'
                            else m')))"

section \<open>Balance validation (\<^verbatim>\<open>input-validation.ts\<close>)\<close>

definition isWithinBalance :: "string \<Rightarrow> number \<Rightarrow> bool" where
  "isWithinBalance amount maxBalance =
     (if amount = [] then True
      else let numValue = parseFloat amount
           in \<not> isNaN numValue \<and> nle numValue maxBalance \<and> ngt numValue (Fin 0))"

section \<open>The exchange form (\<^verbatim>\<open>crypto-exchange.tsx\<close>)\<close>

datatype CurrencyKey = ETH | USDT

datatype ExchangeDirection = SEND | RECEIVE

text \<open>The fields of \<^verbatim>\<open>CURRENCIES\<close> that the logic reads.\<close>

fun balance :: "CurrencyKey \<Rightarrow> number" where
  "balance ETH = rd (298 / 100)"
| "balance USDT = Fin 10000"

fun precision :: "CurrencyKey \<Rightarrow> nat" where
  "precision ETH = 4"
| "precision USDT = 2"

definition ETH_TO_USDT :: number where
  "ETH_TO_USDT = rd (218433 / 100)"

definition USDT_TO_ETH :: number where
  "USDT_TO_ETH = ndiv (Fin 1) (rd (218433 / 100))"

text \<open>
  \<^verbatim>\<open>Math.random()\<close> is an argument \<open>rnd\<close> of every function that draws from it; it ranges
  over the values that satisfy \<open>isRandom\<close>.
\<close>

fun isRandom :: "number \<Rightarrow> bool" where
  "isRandom (Fin r) = (0 \<le> r \<and> r < 1 \<and> rd r = Fin r)"
| "isRandom x = False"

definition calculateTransactionMinutes :: "number \<Rightarrow> number \<Rightarrow> number" where
  "calculateTransactionMinutes v rnd =
     (let baseTime = Fin 10;
          scaleFactor = rd (5 / 100);
          valueEffect = nmul v scaleFactor;
          randomFactor = nadd (rd (7 / 10)) (nmul rnd (rd (6 / 10)))
      in nmax (Fin 5) (nmin (Fin 30) (nround (nmul (nadd baseTime valueEffect) randomFactor))))"

definition rate :: "CurrencyKey \<Rightarrow> CurrencyKey \<Rightarrow> number" where
  "rate fromCurrency toCurrency =
     (if fromCurrency = ETH \<and> toCurrency = USDT then ETH_TO_USDT
      else if fromCurrency = USDT \<and> toCurrency = ETH then USDT_TO_ETH
      else Fin 1)"

definition calculateExchangeAmount :: "string \<Rightarrow> CurrencyKey \<Rightarrow> CurrencyKey \<Rightarrow> string" where
  "calculateExchangeAmount amount fromCurrency toCurrency =
     (if amount = [] then []
      else let numAmount = parseFloat amount
           in if isNaN numAmount then []
              else toFixed (nmul numAmount (rate fromCurrency toCurrency)) (precision toCurrency))"

definition validateAmount :: "string \<Rightarrow> CurrencyKey \<Rightarrow> string" where
  "validateAmount amount currency =
     (if \<not> isNumericInput amount then NUMBERS_ONLY
      else if amount \<noteq> [] \<and> \<not> isWithinBalance amount (balance currency)
        then (if currency = ETH then INSUFFICIENT_ETH else INSUFFICIENT_USDT)
      else [])"

text \<open>
  The component's state: the \<^verbatim>\<open>useState\<close> cells and the two \<^verbatim>\<open>useRef\<close> cells that the
  handlers read and write. A handler sees the state of the render it was created in and
  its updates are applied together before the next render, so a handler is a function
  from that state to the next one.
\<close>

record state =
  sendAmount :: string
  receiveAmount :: string
  sendCurrency :: CurrencyKey
  receiveCurrency :: CurrencyKey
  sendError :: string
  receiveError :: string
  focused :: "ExchangeDirection option"
  transactionMinutes :: number
  isLoading :: bool
  isSuccess :: bool
  sendErrorCount :: nat
  receiveErrorCount :: nat
  shakeSendError :: bool
  shakeReceiveError :: bool
  prevSendErrorRef :: string
  prevReceiveErrorRef :: string

definition initialState :: state where
  "initialState =
     \<lparr> sendAmount = ''1.00'', receiveAmount = ''2184.33'',
       sendCurrency = ETH, receiveCurrency = USDT,
       sendError = [], receiveError = [], focused = None,
       transactionMinutes = Fin 15, isLoading = False, isSuccess = False,
       sendErrorCount = 0, receiveErrorCount = 0,
       shakeSendError = False, shakeReceiveError = False,
       prevSendErrorRef = [], prevReceiveErrorRef = [] \<rparr>"

text \<open>\<^verbatim>\<open>sendVal || "0"\<close>\<close>

definition orZero :: "string \<Rightarrow> string" where
  "orZero v = (if v = [] then ''0'' else v)"

text \<open>
  \<^verbatim>\<open>updateTransactionMinutes\<close>, as the value it stores in \<open>transactionMinutes\<close>. The
  currencies are those of the render the calling handler belongs to.
\<close>

definition updateTransactionMinutes :: "state \<Rightarrow> string \<Rightarrow> string \<Rightarrow> number \<Rightarrow> number" where
  "updateTransactionMinutes s sendVal receiveVal rnd =
     (let sendUsdVal = (if sendCurrency s = USDT then parseFloat (orZero sendVal)
                        else nmul (parseFloat (orZero sendVal)) ETH_TO_USDT);
          receiveUsdVal = (if receiveCurrency s = USDT then parseFloat (orZero receiveVal)
                           else nmul (parseFloat (orZero receiveVal)) ETH_TO_USDT);
          transactionValue = nmax sendUsdVal receiveUsdVal
      in calculateTransactionMinutes transactionValue rnd)"

text \<open>\<^verbatim>\<open>e.target.value.replace(/,/g, '')\<close>\<close>

definition stripCommas :: "string \<Rightarrow> string" where
  "stripCommas v = filter (\<lambda>c. c \<noteq> CHR '','') v"

definition handleSendAmountChange :: "state \<Rightarrow> string \<Rightarrow> number \<Rightarrow> state" where
  "handleSendAmountChange s v rnd =
     (let rawValue = stripCommas v;
          error = validateAmount rawValue (sendCurrency s);
          s1 = (if error \<noteq> [] \<and> error = prevSendErrorRef s
                then s\<lparr> sendErrorCount := sendErrorCount s + 1,
                        shakeSendError := (if 2 \<le> sendErrorCount s then True
                                           else shakeSendError s) \<rparr>
                else s\<lparr> sendErrorCount := 0 \<rparr>);
          s2 = s1\<lparr> sendError := error, prevSendErrorRef := error \<rparr>
      in if error \<noteq> NUMBERS_ONLY then
           (let newReceiveAmount =
                  calculateExchangeAmount rawValue (sendCurrency s) (receiveCurrency s)
            in s2\<lparr> sendAmount := rawValue,
                   receiveAmount := newReceiveAmount,
                   receiveError := [],
                   prevReceiveErrorRef := [],
                   receiveErrorCount := 0,
                   transactionMinutes := updateTransactionMinutes s rawValue newReceiveAmount rnd \<rparr>)
         else s2)"

definition handleReceiveAmountChange :: "state \<Rightarrow> string \<Rightarrow> number \<Rightarrow> state" where
  "handleReceiveAmountChange s v rnd =
     (let rawValue = stripCommas v
      in if \<not> isNumericInput rawValue then
           (let error = NUMBERS_ONLY;
                s1 = (if error = prevReceiveErrorRef s
                      then s\<lparr> receiveErrorCount := receiveErrorCount s + 1,
                              shakeReceiveError := (if 2 \<le> receiveErrorCount s then True
                                                    else shakeReceiveError s) \<rparr>
                      else s\<lparr> receiveErrorCount := 0 \<rparr>)
            in s1\<lparr> receiveError := error, prevReceiveErrorRef := error \<rparr>)
         else
           (let s1 = s\<lparr> receiveAmount := rawValue, receiveError := [],
                         prevReceiveErrorRef := [], receiveErrorCount := 0 \<rparr>
            in if rawValue \<noteq> [] then
                 (let calculatedSendAmount =
                        calculateExchangeAmount rawValue (receiveCurrency s) (sendCurrency s);
                      sendErr = validateAmount calculatedSendAmount (sendCurrency s);
                      s2 = (if sendErr \<noteq> [] \<and> sendErr = prevSendErrorRef s
                            then s1\<lparr> sendErrorCount := sendErrorCount s + 1,
                                     shakeSendError := (if 2 \<le> sendErrorCount s then True
                                                        else shakeSendError s) \<rparr>
                            else s1\<lparr> sendErrorCount := 0 \<rparr>)
                  in s2\<lparr> sendError := sendErr, prevSendErrorRef := sendErr,
                         sendAmount := calculatedSendAmount,
                         transactionMinutes :=
                           updateTransactionMinutes s calculatedSendAmount rawValue rnd \<rparr>)
               else s1\<lparr> sendAmount := [], sendError := [], prevSendErrorRef := [],
                        sendErrorCount := 0,
                        transactionMinutes := updateTransactionMinutes s ''0'' ''0'' rnd \<rparr>))"

definition handleSwap :: "state \<Rightarrow> number \<Rightarrow> state" where
  "handleSwap s rnd =
     (if sendError s = NUMBERS_ONLY \<or> receiveError s = NUMBERS_ONLY then s
      else let newSendAmount = receiveAmount s;
               newSendCurrency = receiveCurrency s;
               newReceiveAmount = sendAmount s;
               newReceiveCurrency = sendCurrency s;
               newSendError = validateAmount newSendAmount newSendCurrency
           in s\<lparr> sendAmount := newSendAmount,
                  receiveAmount := newReceiveAmount,
                  sendCurrency := newSendCurrency,
                  receiveCurrency := newReceiveCurrency,
                  sendError := newSendError,
                  receiveError := [],
                  transactionMinutes :=
                    updateTransactionMinutes s newSendAmount newReceiveAmount rnd \<rparr>)"

text \<open>
  \<^verbatim>\<open>handleConfirm\<close> sets the loading flag and schedules \<open>confirmTimeout\<close>, which runs
  two seconds later.
\<close>

definition handleConfirm :: "state \<Rightarrow> state" where
  "handleConfirm s = s\<lparr> isLoading := True \<rparr>"

definition confirmTimeout :: "state \<Rightarrow> state" where
  "confirmTimeout s = s\<lparr> isLoading := False, isSuccess := True \<rparr>"

text \<open>The \<^verbatim>\<open>disabled\<close> property of the confirm button.\<close>

definition confirmDisabled :: "state \<Rightarrow> bool" where
  "confirmDisabled s \<longleftrightarrow> sendError s \<noteq> [] \<or> receiveError s \<noteq> [] \<or> isLoading s"

text \<open>The click handler of the \<^verbatim>\<open>New Exchange\<close> button of the success panel.\<close>

definition newExchange :: "state \<Rightarrow> state" where
  "newExchange s =
     s\<lparr> isSuccess := False,
        sendAmount := ''1.00'',
        receiveAmount := calculateExchangeAmount ''1.00'' (sendCurrency s) (receiveCurrency s) \<rparr>"

definition handleInputFocus :: "state \<Rightarrow> ExchangeDirection \<Rightarrow> state" where
  "handleInputFocus s direction = s\<lparr> focused := Some direction \<rparr>"

definition handleInputBlur :: "state \<Rightarrow> state" where
  "handleInputBlur s = s\<lparr> focused := None \<rparr>"

text \<open>The callbacks that end a shake animation, half a second after it starts.\<close>

definition shakeSendTimeout :: "state \<Rightarrow> state" where
  "shakeSendTimeout s = s\<lparr> shakeSendError := False \<rparr>"

definition shakeReceiveTimeout :: "state \<Rightarrow> state" where
  "shakeReceiveTimeout s = s\<lparr> shakeReceiveError := False \<rparr>"

subsection \<open>Effects\<close>

text \<open>
  The two validating \<^verbatim>\<open>useEffect\<close> hooks. Both bodies read the state \<open>s\<close> of the render
  they follow; the first writes first, so where both write \<open>sendError\<close>, the second one's
  value stands. \<open>sendEffect\<close> has the dependencies \<^verbatim>\<open>[sendAmount, sendCurrency]\<close> and
  \<open>receiveEffect\<close> has \<^verbatim>\<open>[receiveAmount, receiveCurrency, sendCurrency]\<close>.
\<close>

definition sendEffect :: "state \<Rightarrow> state \<Rightarrow> state" where
  "sendEffect s acc =
     (if sendAmount s \<noteq> [] then
        (let error = validateAmount (sendAmount s) (sendCurrency s)
         in if error \<noteq> sendError s
            then acc\<lparr> sendError := error, prevSendErrorRef := error, sendErrorCount := 0 \<rparr>
            else acc)
      else acc)"

definition receiveEffect :: "state \<Rightarrow> state \<Rightarrow> state" where
  "receiveEffect s acc =
     (let isInitialRender = (receiveAmount s = ''2184.33'' \<and> sendAmount s = ''1.00'')
      in if isInitialRender then acc
         else if receiveAmount s \<noteq> [] then
           (let calculatedSendAmount =
                  calculateExchangeAmount (receiveAmount s) (receiveCurrency s) (sendCurrency s);
                newSendError = validateAmount calculatedSendAmount (sendCurrency s)
            in if newSendError \<noteq> sendError s
               then acc\<lparr> sendError := newSendError, prevSendErrorRef := newSendError,
                         sendErrorCount := 0 \<rparr>
               else acc)
         else acc)"

text \<open>
  The effects that run after the render of \<open>s\<close>, which follows the render of \<open>old\<close>:
  those with a changed dependency.
\<close>

definition runEffects :: "state \<Rightarrow> state \<Rightarrow> state" where
  "runEffects old s =
     (let a1 = (if sendAmount s \<noteq> sendAmount old \<or> sendCurrency s \<noteq> sendCurrency old
                then sendEffect s s else s)
      in if receiveAmount s \<noteq> receiveAmount old \<or> receiveCurrency s \<noteq> receiveCurrency old
            \<or> sendCurrency s \<noteq> sendCurrency old
         then receiveEffect s a1 else a1)"

text \<open>
  After the first render every effect runs: the one that initialises the estimated time,
  then the two validating ones.
\<close>

definition mount :: "number \<Rightarrow> state" where
  "mount rnd =
     (let s = initialState;
          a0 = s\<lparr> transactionMinutes :=
                     updateTransactionMinutes s (sendAmount s) (receiveAmount s) rnd \<rparr>
      in receiveEffect s (sendEffect s a0))"

subsection \<open>Events\<close>

datatype event =
    SendChange string number
  | ReceiveChange string number
  | Swap number
  | Confirm
  | ConfirmTimeout
  | NewExchange
  | Focus ExchangeDirection
  | Blur
  | ShakeSendTimeout
  | ShakeReceiveTimeout

text \<open>
  What the rendered page offers. The form is shown unless the success panel is; the
  confirm button reacts unless disabled; the confirmation callback is pending exactly
  while \<open>isLoading\<close> holds. A shake callback may be pending at any time.
\<close>

fun enabled :: "state \<Rightarrow> event \<Rightarrow> bool" where
  "enabled s (SendChange v rnd) = (\<not> isSuccess s \<and> isRandom rnd)"
| "enabled s (ReceiveChange v rnd) = (\<not> isSuccess s \<and> isRandom rnd)"
| "enabled s (Swap rnd) = (\<not> isSuccess s \<and> isRandom rnd)"
| "enabled s Confirm = (\<not> isSuccess s \<and> \<not> confirmDisabled s)"
| "enabled s ConfirmTimeout = isLoading s"
| "enabled s NewExchange = isSuccess s"
| "enabled s (Focus d) = (\<not> isSuccess s)"
| "enabled s Blur = (\<not> isSuccess s)"
| "enabled s ShakeSendTimeout = True"
| "enabled s ShakeReceiveTimeout = True"

fun handle :: "state \<Rightarrow> event \<Rightarrow> state" where
  "handle s (SendChange v rnd) = handleSendAmountChange s v rnd"
| "handle s (ReceiveChange v rnd) = handleReceiveAmountChange s v rnd"
| "handle s (Swap rnd) = handleSwap s rnd"
| "handle s Confirm = handleConfirm s"
| "handle s ConfirmTimeout = confirmTimeout s"
| "handle s NewExchange = newExchange s"
| "handle s (Focus d) = handleInputFocus s d"
| "handle s Blur = handleInputBlur s"
| "handle s ShakeSendTimeout = shakeSendTimeout s"
| "handle s ShakeReceiveTimeout = shakeReceiveTimeout s"

text \<open>One event: its handler, the render, and the effects of that render.\<close>

definition step :: "state \<Rightarrow> event \<Rightarrow> state" where
  "step s ev = runEffects s (handle s ev)"

inductive reachable :: "state \<Rightarrow> bool" where
  reach_mount: "isRandom rnd \<Longrightarrow> reachable (mount rnd)"
| reach_step: "reachable s \<Longrightarrow> enabled s ev \<Longrightarrow> reachable (step s ev)"

text \<open>The state after a list of events.\<close>

fun run :: "state \<Rightarrow> event list \<Rightarrow> state" where
  "run s [] = s"
| "run s (ev # evs) = run (step s ev) evs"

text \<open>The invariant of the currency pair.\<close>

definition pairOk :: "state \<Rightarrow> bool" where
  "pairOk s \<longleftrightarrow> sendCurrency s \<noteq> receiveCurrency s
     \<and> {sendCurrency s, receiveCurrency s} = {ETH, USDT}"

text \<open>The language of a pattern, against which \<open>test\<close> is justified.\<close>

inductive_set starOf :: "string set \<Rightarrow> string set" for A :: "string set" where
  starNil: "[] \<in> starOf A"
| starApp: "u \<in> A \<Longrightarrow> w \<in> starOf A \<Longrightarrow> u @ w \<in> starOf A"

fun lang :: "regex \<Rightarrow> string set" where
  "lang Never = {}"
| "lang Eps = {[]}"
| "lang Digit = {[c] | c. isDigit c}"
| "lang (Lit d) = {[d]}"
| "lang (Alt r s) = lang r \<union> lang s"
| "lang (Seq r s) = {u @ w | u w. u \<in> lang r \<and> w \<in> lang s}"
| "lang (Star r) = starOf (lang r)"

section \<open>Format validation\<close>

lemma nullable_iff: "nullable r \<longleftrightarrow> [] \<in> lang r"
  by (induction r) (auto intro: starOf.intros)

lemma starOf_cons:
  "c # w \<in> starOf A \<longleftrightarrow> (\<exists>u v. w = u @ v \<and> c # u \<in> A \<and> v \<in> starOf A)"
proof
  assume "c # w \<in> starOf A"
  then show "\<exists>u v. w = u @ v \<and> c # u \<in> A \<and> v \<in> starOf A"
  proof (induction "c # w" rule: starOf.induct)
    case (starApp u v)
    then show ?case by (cases u) auto
  qed
next
  assume "\<exists>u v. w = u @ v \<and> c # u \<in> A \<and> v \<in> starOf A"
  then obtain u v where "w = u @ v" "c # u \<in> A" "v \<in> starOf A" by blast
  then show "c # w \<in> starOf A"
    using starOf.starApp [of "c # u" A v] by simp
qed

lemma advance_lang: "w \<in> lang (advance c r) \<longleftrightarrow> c # w \<in> lang r"
proof (induction r arbitrary: w)
  case (Seq r s)
  show ?case
  proof
    assume "w \<in> lang (advance c (Seq r s))"
    then consider (l) u v where "w = u @ v" "u \<in> lang (advance c r)" "v \<in> lang s"
      | (r) "nullable r" "w \<in> lang (advance c s)"
      by (auto split: if_splits)
    then show "c # w \<in> lang (Seq r s)"
    proof cases
      case l
      then have "c # u \<in> lang r" using Seq.IH(1) by simp
      then show ?thesis using l by (metis (mono_tags, lifting) Cons_eq_appendI lang.simps(6) mem_Collect_eq)
    next
      case r
      then have "[] \<in> lang r" "c # w \<in> lang s" using Seq.IH(2) by (simp_all add: nullable_iff)
      then show ?thesis by (metis (mono_tags, lifting) append_Nil lang.simps(6) mem_Collect_eq)
    qed
  next
    assume "c # w \<in> lang (Seq r s)"
    then obtain u v where uv: "c # w = u @ v" "u \<in> lang r" "v \<in> lang s" by auto
    show "w \<in> lang (advance c (Seq r s))"
    proof (cases u)
      case Nil
      then have "nullable r" "w \<in> lang (advance c s)"
        using uv Seq.IH(2) by (simp_all add: nullable_iff)
      then show ?thesis by simp
    next
      case (Cons d u')
      then have "u' \<in> lang (advance c r)" "w = u' @ v" using uv Seq.IH(1) by simp_all
      then show ?thesis using uv(3) by auto
    qed
  qed
next
  case (Star r)
  show ?case
    using Star.IH by (auto simp: starOf_cons)
qed auto

lemma test_lang: "test r w \<longleftrightarrow> w \<in> lang r"
  by (induction w arbitrary: r) (simp_all add: nullable_iff advance_lang)

lemma starOf_digits: "w \<in> starOf {[c] | c. isDigit c} \<longleftrightarrow> list_all isDigit w"
proof
  assume "w \<in> starOf {[c] | c. isDigit c}"
  then show "list_all isDigit w"
    by (induction rule: starOf.induct) auto
next
  assume "list_all isDigit w"
  then show "w \<in> starOf {[c] | c. isDigit c}"
  proof (induction w)
    case Nil
    show ?case by (rule starOf.starNil)
  next
    case (Cons c w)
    then have "[c] \<in> {[c] | c. isDigit c}" "w \<in> starOf {[c] | c. isDigit c}" by auto
    then show ?case using starOf.starApp [of "[c]" _ w] by simp
  qed
qed

lemma lang_optDot: "p \<in> lang (Opt (Lit (CHR ''.''))) \<longleftrightarrow> p = ''.'' \<or> p = []"
  by auto

lemma lang_starDigit: "a \<in> lang (Star Digit) \<longleftrightarrow> list_all isDigit a"
  by (simp add: starOf_digits)

lemma lang_Seq: "w \<in> lang (Seq r s) \<longleftrightarrow> (\<exists>u v. w = u @ v \<and> u \<in> lang r \<and> v \<in> lang s)"
  by auto

lemma numericPattern_lang:
  "w \<in> lang numericPattern \<longleftrightarrow>
     (\<exists>a b. list_all isDigit a \<and> list_all isDigit b \<and> (w = a @ b \<or> w = a @ ''.'' @ b))"
proof -
  have "w \<in> lang numericPattern \<longleftrightarrow>
        (\<exists>a p b. w = a @ p @ b \<and> list_all isDigit a \<and> (p = ''.'' \<or> p = []) \<and> list_all isDigit b)"
    unfolding numericPattern_def lang_Seq lang_optDot lang_starDigit by blast
  also have "\<dots> \<longleftrightarrow>
     (\<exists>a b. list_all isDigit a \<and> list_all isDigit b \<and> (w = a @ b \<or> w = a @ ''.'' @ b))"
    by (metis append_Nil)
  finally show ?thesis .
qed

lemma not_isDigit_dot: "\<not> isDigit (CHR ''.'')"
  by (simp add: isDigit_def)

lemma count_dot_digits: "list_all isDigit a \<Longrightarrow> count_list a (CHR ''.'') = 0"
  by (induction a) (auto simp: not_isDigit_dot)

text \<open>
  C5. \<^verbatim>\<open>isNumericInput\<close> accepts a string exactly when it is empty or consists of digits,
  then at most one decimal point, then digits. A string with a character that is neither a
  digit nor the period, or with two or more periods, is rejected, and \<^verbatim>\<open>validateAmount\<close>
  answers it with the "numbers only" message.
\<close>

theorem isNumericInput_iff:
  "(isNumericInput v \<longleftrightarrow>
      v = [] \<or> (\<exists>a b. list_all isDigit a \<and> list_all isDigit b \<and> (v = a @ b \<or> v = a @ ''.'' @ b)))
   \<and> ((\<exists>c \<in> set v. \<not> isDigit c \<and> c \<noteq> CHR ''.'') \<longrightarrow> validateAmount v cur = NUMBERS_ONLY)
   \<and> (2 \<le> count_list v (CHR ''.'') \<longrightarrow> validateAmount v cur = NUMBERS_ONLY)"
proof -
  have iff: "isNumericInput v \<longleftrightarrow>
      v = [] \<or> (\<exists>a b. list_all isDigit a \<and> list_all isDigit b \<and> (v = a @ b \<or> v = a @ ''.'' @ b))"
    by (simp add: isNumericInput_def test_lang numericPattern_lang)
  have sym: "\<not> isNumericInput v" if h: "\<exists>c \<in> set v. \<not> isDigit c \<and> c \<noteq> CHR ''.''"
  proof
    assume "isNumericInput v"
    with iff h obtain a b where ab: "list_all isDigit a" "list_all isDigit b"
      "v = a @ b \<or> v = a @ ''.'' @ b" by auto
    then have "\<forall>c \<in> set v. isDigit c \<or> c = CHR ''.''"
      by (auto simp: list_all_iff)
    with h show False by blast
  qed
  have dots: "\<not> isNumericInput v" if h: "2 \<le> count_list v (CHR ''.'')"
  proof
    assume "isNumericInput v"
    with iff h obtain a b where ab: "list_all isDigit a" "list_all isDigit b"
      "v = a @ b \<or> v = a @ ''.'' @ b" by auto
    then have "count_list v (CHR ''.'') \<le> 1"
      by (auto simp: count_dot_digits)
    with h show False by simp
  qed
  show ?thesis
    using iff sym dots by (simp add: validateAmount_def)
qed

theorem isNumericInput_iff_witness:
  "isNumericInput ''12.5'' \<and> validateAmount ''1a'' ETH = NUMBERS_ONLY
     \<and> validateAmount ''1.2.3'' USDT = NUMBERS_ONLY"
proof -
  have a: "\<exists>c \<in> set ''1a''. \<not> isDigit c \<and> c \<noteq> CHR ''.''" by (simp add: isDigit_def)
  have b: "2 \<le> count_list ''1.2.3'' (CHR ''.'')" by simp
  have c: "list_all isDigit ''12'' \<and> list_all isDigit ''5'' \<and> ''12.5'' = ''12'' @ ''.'' @ ''5''"
    by (simp add: isDigit_def)
  from c have "isNumericInput ''12.5''"
    using isNumericInput_iff [of "''12.5''" ETH] by blast
  then show ?thesis
    using a b isNumericInput_iff [of "''1a''" ETH] isNumericInput_iff [of "''1.2.3''" USDT]
    by blast
qed

section \<open>Rounding to binary64\<close>

lemma bits_bounds: "0 < n \<Longrightarrow> 2 ^ (bits n - 1) \<le> n \<and> n < 2 ^ bits n"
proof (induction n rule: bits.induct)
  case (1 n)
  show ?case
  proof (cases "n div 2 = 0")
    case True
    with "1.prems" have "n = 1" by (simp add: div_eq_0_iff) 
    then show ?thesis by (simp add: bits.simps)
  next
    case False
    then have pos: "0 < n div 2" by simp
    with "1.IH" "1.prems" have ih: "2 ^ (bits (n div 2) - 1) \<le> n div 2" "n div 2 < 2 ^ bits (n div 2)"
      by simp_all
    have b: "bits n = Suc (bits (n div 2))" using "1.prems" by (simp add: bits.simps)
    have bp: "0 < bits (n div 2)" using pos by (simp add: bits.simps)
    then obtain k where k: "bits (n div 2) = Suc k" by (cases "bits (n div 2)") auto
    have "2 * 2 ^ k \<le> 2 * (n div 2)" using ih(1) k by simp
    also have "\<dots> \<le> n" by simp
    finally have lo: "2 ^ (bits n - 1) \<le> n" using b k by simp
    have "n < 2 * (n div 2) + 2" by presburger
    also have "\<dots> \<le> 2 * 2 ^ bits (n div 2)" using ih(2) by simp
    finally have hi: "n < 2 ^ bits n" using b by simp
    show ?thesis using lo hi by simp
  qed
qed

lemma bits_pos: "0 < n \<Longrightarrow> 0 < bits n"
  by (simp add: bits.simps)

lemma expo_bounds:
  assumes "0 < a"
  shows "2 powi expo a \<le> a" and "a < 2 powi (expo a + 1)"
proof -
  have "2 powi expo a \<le> a \<and> a < 2 powi (expo a + 1)"
  proof (cases "1 \<le> a")
    case True
    define N where "N = nat \<lfloor>a\<rfloor>"
    have Npos: "0 < N" using True by (simp add: N_def)
    have Nle: "real N \<le> a" using True by (simp add: N_def)
    have aN: "a < real N + 1" using True unfolding N_def by linarith
    from bits_bounds [OF Npos] have b: "2 ^ (bits N - 1) \<le> N" "N < 2 ^ bits N" by simp_all
    have e: "expo a = int (bits N) - 1" using True by (simp add: expo_def N_def)
    obtain k where k: "bits N = Suc k" using bits_pos [OF Npos] by (cases "bits N") auto
    have "(2::real) ^ k \<le> real N" using b(1) k
      by (metis diff_Suc_1 of_nat_le_iff of_nat_numeral of_nat_power)
    moreover have pe: "(2::real) powi expo a = 2 ^ k" using e k by (simp add: power_int_def)
    ultimately have lo: "2 powi expo a \<le> a" using Nle by linarith
    have "real N + 1 \<le> 2 ^ Suc k" using b(2) k
      by (metis Suc_leI of_nat_Suc of_nat_le_iff of_nat_numeral of_nat_power add.commute)
    moreover have "(2::real) powi (expo a + 1) = 2 ^ Suc k"
      using e k by (simp add: power_int_def nat_add_distrib)
    ultimately have hi: "a < 2 powi (expo a + 1)" using aN by linarith
    show ?thesis using lo hi by simp
  next
    case False
    define y where "y = 1 / a"
    have y1: "1 < y" using False assms by (simp add: y_def)
    define M where "M = nat (\<lceil>y\<rceil> - 1)"
    have c2: "2 \<le> \<lceil>y\<rceil>" using y1 by linarith
    then have Mpos: "0 < M" by (simp add: M_def)
    have My: "real M < y" using c2 unfolding M_def by linarith
    have yM: "y \<le> real M + 1" using c2 unfolding M_def by linarith
    from bits_bounds [OF Mpos] have b: "2 ^ (bits M - 1) \<le> M" "M < 2 ^ bits M" by simp_all
    have e: "expo a = - int (bits M)" using False by (simp add: expo_def M_def y_def)
    obtain k where k: "bits M = Suc k" using bits_pos [OF Mpos] by (cases "bits M") auto
    have "(2::real) ^ k \<le> real M" using b(1) k
      by (metis diff_Suc_1 of_nat_le_iff of_nat_numeral of_nat_power)
    then have ylo: "2 ^ k < y" using My by linarith
    have "real M + 1 \<le> 2 ^ Suc k" using b(2) k
      by (metis Suc_leI of_nat_Suc of_nat_le_iff of_nat_numeral of_nat_power add.commute)
    then have yhi: "y \<le> 2 ^ Suc k" using yM by linarith
    have a_eq: "a = 1 / y" using assms by (simp add: y_def)
    have ypos: "0 < y" using y1 by simp
    have n1: "nat (int k + 1) = Suc k" by simp
    have p1: "(2::real) powi expo a = 1 / 2 ^ Suc k"
      unfolding e k by (simp add: power_int_def inverse_eq_divide n1 power_one_over del: power_Suc)
    have p2: "(2::real) powi (expo a + 1) = 1 / 2 ^ k"
      unfolding e k by (simp add: power_int_def inverse_eq_divide power_one_over)
    have "1 / 2 ^ Suc k \<le> 1 / y" using yhi ypos by (simp add: frac_le)
    then have lo: "2 powi expo a \<le> a" using p1 a_eq by linarith
    have "1 / y < 1 / 2 ^ k" using ylo by (simp add: frac_less2)
    then have hi: "a < 2 powi (expo a + 1)" using p2 a_eq by linarith
    show ?thesis using lo hi by simp
  qed
  then show "2 powi expo a \<le> a" and "a < 2 powi (expo a + 1)" by simp_all
qed

lemma powi2_mono: "e \<le> e' \<Longrightarrow> (2::real) powi e \<le> 2 powi e'"
  by (simp add: power_int_increasing)

lemma expo_unique:
  assumes "0 < a" "2 powi e \<le> a" "a < 2 powi (e + 1)"
  shows "expo a = e"
proof (rule ccontr)
  assume ne: "expo a \<noteq> e"
  show False
  proof (cases "expo a < e")
    case True
    then have "expo a + 1 \<le> e" by simp
    then have "(2::real) powi (expo a + 1) \<le> 2 powi e" by (rule powi2_mono)
    with expo_bounds(2) [OF assms(1)] assms(2) show False by linarith
  next
    case False
    with ne have "e + 1 \<le> expo a" by simp
    then have "(2::real) powi (e + 1) \<le> 2 powi expo a" by (rule powi2_mono)
    with expo_bounds(1) [OF assms(1)] assms(3) show False by linarith
  qed
qed

lemma roundHalfEven_near:
  assumes "\<bar>t - of_int n\<bar> < 1 / 2"
  shows "roundHalfEven t = n"
proof (cases "of_int n \<le> t")
  case True
  with assms have "\<lfloor>t\<rfloor> = n" by linarith
  then show ?thesis using assms True by (simp add: roundHalfEven_def Let_def)
next
  case False
  with assms have f: "\<lfloor>t\<rfloor> = n - 1" by linarith
  have "1 / 2 < t - of_int (n - 1)" using assms False by simp
  then show ?thesis using f by (simp add: roundHalfEven_def Let_def)
qed

lemma roundHalfEven_err: "\<bar>of_int (roundHalfEven t) - t\<bar> \<le> 1 / 2"
proof -
  have "of_int \<lfloor>t\<rfloor> \<le> t" "t < of_int \<lfloor>t\<rfloor> + 1" by linarith+
  then show ?thesis
    by (auto simp: roundHalfEven_def Let_def)
qed

lemma quantum_of_expo:
  assumes "0 < a" "2 powi e \<le> a" "a < 2 powi (e + 1)" "- 1022 \<le> e"
  shows "quantum a = 2 powi (e - 52)"
  using expo_unique [OF assms(1-3)] assms(4) by (simp add: quantum_def)

lemma powi2_add: "(2::real) powi (a + b) = 2 powi a * 2 powi b"
  by (simp add: power_int_add)

lemma powi2_pos: "0 < (2::real) powi e"
  by simp

text \<open>A certificate for a rounding: the exponent and the 53-bit significand.\<close>

lemma rd_cert:
  assumes pos: "0 < r"
    and lo: "2 powi e \<le> r" and hi: "r < 2 powi (e + 1)"
    and emin: "- 1022 \<le> e" and emax: "e \<le> 1023"
    and near: "\<bar>r / 2 powi (e - 52) - of_int n\<bar> < 1 / 2"
    and n53: "n < 2 ^ 53"
  shows "rd r = Fin (of_int n * 2 powi (e - 52))"
proof -
  have q: "quantum \<bar>r\<bar> = 2 powi (e - 52)"
    using quantum_of_expo [of r e] pos lo hi emin by simp
  have n: "roundHalfEven (\<bar>r\<bar> / 2 powi (e - 52)) = n"
    using roundHalfEven_near [OF near] pos by simp
  have nb: "of_int n \<le> (2::real) ^ 53 - 1"
  proof -
    have "n \<le> 2 ^ 53 - 1" using n53 by simp
    then have "(of_int n :: real) \<le> of_int (2 ^ 53 - 1)" by (simp only: of_int_le_iff)
    then show ?thesis by simp
  qed
  from nb have "of_int n * (2::real) powi (e - 52) \<le> (2 ^ 53 - 1) * 2 powi (e - 52)"
    by (intro mult_right_mono) simp_all
  also have "\<dots> < 2 ^ 53 * 2 powi (e - 52)"
    by (intro mult_strict_right_mono) simp_all
  also have "\<dots> = 2 powi (e + 1)"
  proof -
    have "(2::real) ^ 53 * 2 powi (e - 52) = 2 powi 53 * 2 powi (e - 52)" by simp
    also have "\<dots> = 2 powi (53 + (e - 52))" by (rule powi2_add [symmetric])
    also have "53 + (e - 52) = e + 1" by simp
    finally show ?thesis .
  qed
  also have "\<dots> \<le> 2 powi 1024" using emax by (intro powi2_mono) simp
  also have "\<dots> = 2 ^ 1024" by simp
  finally have small: "\<not> (2::real) ^ 1024 \<le> of_int n * 2 powi (e - 52)" by simp
  show ?thesis
    using pos small unfolding rd_def Let_def q n by simp
qed

lemma rd_zero: "rd 0 = Fin 0"
  by (simp add: rd_def)

lemma rd_218433: "rd (218433 / 100) = Fin (1200848116949975 / 549755813888)"
  using rd_cert [of "218433 / 100" 11 4803392467799900] by simp

lemma rd_298: "rd (298 / 100) = Fin (6710363444782039 / 2251799813685248)"
  using rd_cert [of "298 / 100" 1 6710363444782039] by simp

lemma rd_inv: "rd (1 / (1200848116949975 / 549755813888)) = Fin (8445035353499495 / 18446744073709551616)"
  using rd_cert [of "1 / (1200848116949975 / 549755813888)" "-12" 8445035353499495] by simp

lemma rd_one: "rd 1 = Fin 1"
  using rd_cert [of 1 0 "2 ^ 52"] by simp

lemma expo_less:
  assumes "0 < r" "r < 2 powi k"
  shows "expo r < k"
proof (rule ccontr)
  assume "\<not> expo r < k"
  then have "(2::real) powi k \<le> 2 powi expo r" by (intro powi2_mono) simp
  with expo_bounds(1) [OF assms(1)] assms(2) show False by linarith
qed

text \<open>The error of a rounding: relative in the normal range, absolute below it.\<close>

lemma rd_error:
  assumes nonneg: "0 \<le> r" and below: "r < 2 powi 1023"
  shows "\<exists>v. rd r = Fin v \<and> 0 \<le> v \<and> \<bar>v - r\<bar> \<le> r * 2 powi (- 53) + 2 powi (- 1075)"
proof (cases "r = 0")
  case True
  then show ?thesis by (simp add: rd_zero)
next
  case False
  with nonneg have pos: "0 < r" by simp
  define e where "e = max (expo r) (- 1022)"
  define q :: real where "q = 2 powi (e - 52)"
  define n where "n = roundHalfEven (r / q)"
  define v where "v = of_int n * q"
  have qpos: "0 < q" by (simp add: q_def)
  have quant: "quantum \<bar>r\<bar> = q" using pos by (simp add: quantum_def q_def e_def)
  have err: "\<bar>of_int n - r / q\<bar> \<le> 1 / 2" unfolding n_def by (rule roundHalfEven_err)
  have "\<bar>v - r\<bar> = \<bar>of_int n - r / q\<bar> * q"
  proof -
    have "v - r = (of_int n - r / q) * q" using qpos by (simp add: v_def field_simps)
    then show ?thesis using qpos by (simp add: abs_mult)
  qed
  also have "\<dots> \<le> 1 / 2 * q" using err qpos by (intro mult_right_mono) simp_all
  finally have verr: "\<bar>v - r\<bar> \<le> q / 2" by simp
  have half: "q / 2 = 2 powi (e - 53)"
  proof -
    have "(2::real) powi (e - 52) = 2 powi ((e - 53) + 1)" by simp
    also have "\<dots> = 2 powi (e - 53) * 2 powi 1" by (rule powi2_add)
    finally show ?thesis by (simp add: q_def)
  qed
  have bound: "q / 2 \<le> r * 2 powi (- 53) + 2 powi (- 1075)"
  proof (cases "- 1022 \<le> expo r")
    case True
    then have "e = expo r" by (simp add: e_def)
    then have "q / 2 = 2 powi (expo r + (- 53))" using half by simp
    also have "\<dots> = 2 powi expo r * 2 powi (- 53)" by (rule powi2_add)
    also have "\<dots> \<le> r * 2 powi (- 53)"
      using expo_bounds(1) [OF pos] by (intro mult_right_mono) simp_all
    finally show ?thesis by simp
  next
    case False
    then have "e = - 1022" by (simp add: e_def)
    then have "q / 2 = 2 powi (- 1075)" using half by simp
    then show ?thesis using pos by simp
  qed
  have e_hi: "e \<le> 1022" using expo_less [OF pos below] by (simp add: e_def)
  have "q / 2 \<le> 2 powi (1022 - 53)" unfolding half using e_hi by (intro powi2_mono) simp
  also have "\<dots> \<le> 2 powi 1023" by (intro powi2_mono) simp
  finally have "v < 2 powi 1023 + 2 powi 1023" using verr below by linarith
  also have "(2::real) powi 1023 + 2 powi 1023 = 2 ^ 1024" by simp
  finally have small: "\<not> 2 ^ 1024 \<le> v" by simp
  have "0 < r / q" using pos qpos by simp
  with err have "- 1 < (of_int n :: real)" by linarith
  then have "0 \<le> n" by linarith
  then have vnn: "0 \<le> v" using qpos by (simp add: v_def)
  have "rd r = Fin v"
    using pos small unfolding rd_def Let_def quant v_def n_def by simp
  then show ?thesis using vnn verr bound by auto
qed

lemma rd_error_simple:
  assumes "0 \<le> r" "r \<le> 10 ^ 30"
  shows "\<exists>v. rd r = Fin v \<and> 0 \<le> v \<and> \<bar>v - r\<bar> \<le> r / 2 ^ 53 + 1 / 10 ^ 30"
proof -
  have "(10::real) ^ 30 < 2 powi 1023" by simp
  with assms have "r < 2 powi 1023" by linarith
  from rd_error [OF assms(1) this] obtain v where
    v: "rd r = Fin v" "0 \<le> v" "\<bar>v - r\<bar> \<le> r * 2 powi (- 53) + 2 powi (- 1075)" by blast
  have a: "r * 2 powi (- 53) = r / 2 ^ 53" by (simp add: power_int_minus field_simps)
  have b: "(2::real) powi (- 1075) \<le> 1 / 10 ^ 30" by (simp add: power_int_minus field_simps)
  from v(3) a b have "\<bar>v - r\<bar> \<le> r / 2 ^ 53 + 1 / 10 ^ 30" by linarith
  with v(1,2) show ?thesis by blast
qed

section \<open>The swap action\<close>

lemma insufficient_not_format:
  "INSUFFICIENT_ETH \<noteq> NUMBERS_ONLY" "INSUFFICIENT_USDT \<noteq> NUMBERS_ONLY"
  "NUMBERS_ONLY \<noteq> INSUFFICIENT_ETH" "NUMBERS_ONLY \<noteq> INSUFFICIENT_USDT"
  "[] \<noteq> NUMBERS_ONLY" "INSUFFICIENT_ETH \<noteq> []" "INSUFFICIENT_USDT \<noteq> []" "NUMBERS_ONLY \<noteq> []"
  by (simp_all add: INSUFFICIENT_ETH_def INSUFFICIENT_USDT_def NUMBERS_ONLY_def)


lemma initialState_fields:
  "sendAmount initialState = ''1.00''" "receiveAmount initialState = ''2184.33''"
  "sendCurrency initialState = ETH" "receiveCurrency initialState = USDT"
  "sendError initialState = []" "receiveError initialState = []"
  "isLoading initialState = False" "isSuccess initialState = False"
  "sendErrorCount initialState = 0" "receiveErrorCount initialState = 0"
  "shakeSendError initialState = False" "shakeReceiveError initialState = False"
  "prevSendErrorRef initialState = []" "prevReceiveErrorRef initialState = []"
  "transactionMinutes initialState = Fin 15" "focused initialState = None"
  by (simp_all add: initialState_def)


section \<open>The confirm control\<close>



section \<open>Format errors\<close>

lemma validateAmount_format:
  "\<not> isNumericInput v \<Longrightarrow> validateAmount v c = NUMBERS_ONLY"
  by (simp add: validateAmount_def)

lemma runEffects_same:
  "sendAmount s' = sendAmount s \<Longrightarrow> receiveAmount s' = receiveAmount s \<Longrightarrow>
   sendCurrency s' = sendCurrency s \<Longrightarrow> receiveCurrency s' = receiveCurrency s \<Longrightarrow>
   runEffects s s' = s'"
  by (simp add: runEffects_def)

text \<open>
  C7. An edit of either field whose value, commas removed, fails the format check stores
  the "numbers only" message as that field's error and leaves the send amount and the
  receive amount as they were, in the handler and after the effects of the next render.
\<close>

theorem format_error_keeps_amounts:
  assumes "\<not> isNumericInput (stripCommas v)"
  shows "sendError (handleSendAmountChange s v rnd) = NUMBERS_ONLY
       \<and> sendAmount (handleSendAmountChange s v rnd) = sendAmount s
       \<and> receiveAmount (handleSendAmountChange s v rnd) = receiveAmount s
       \<and> receiveError (handleReceiveAmountChange s v rnd) = NUMBERS_ONLY
       \<and> sendAmount (handleReceiveAmountChange s v rnd) = sendAmount s
       \<and> receiveAmount (handleReceiveAmountChange s v rnd) = receiveAmount s
       \<and> step s (SendChange v rnd) = handleSendAmountChange s v rnd
       \<and> step s (ReceiveChange v rnd) = handleReceiveAmountChange s v rnd"
proof -
  have e: "validateAmount (stripCommas v) (sendCurrency s) = NUMBERS_ONLY"
    using assms by (rule validateAmount_format)
  have snd: "sendError (handleSendAmountChange s v rnd) = NUMBERS_ONLY
       \<and> sendAmount (handleSendAmountChange s v rnd) = sendAmount s
       \<and> receiveAmount (handleSendAmountChange s v rnd) = receiveAmount s
       \<and> sendCurrency (handleSendAmountChange s v rnd) = sendCurrency s
       \<and> receiveCurrency (handleSendAmountChange s v rnd) = receiveCurrency s"
    by (simp add: handleSendAmountChange_def Let_def e)
  have rcv: "receiveError (handleReceiveAmountChange s v rnd) = NUMBERS_ONLY
       \<and> sendAmount (handleReceiveAmountChange s v rnd) = sendAmount s
       \<and> receiveAmount (handleReceiveAmountChange s v rnd) = receiveAmount s
       \<and> sendCurrency (handleReceiveAmountChange s v rnd) = sendCurrency s
       \<and> receiveCurrency (handleReceiveAmountChange s v rnd) = receiveCurrency s"
    using assms by (simp add: handleReceiveAmountChange_def Let_def)
  show ?thesis
    using snd rcv by (simp add: step_def runEffects_same)
qed

theorem format_error_keeps_amounts_witness:
  "\<not> isNumericInput (stripCommas ''1,2x'')
   \<and> sendError (handleSendAmountChange initialState ''1,2x'' (Fin 0)) = NUMBERS_ONLY
   \<and> sendAmount (handleSendAmountChange initialState ''1,2x'' (Fin 0)) = ''1.00''
   \<and> receiveAmount (handleSendAmountChange initialState ''1,2x'' (Fin 0)) = ''2184.33''
   \<and> receiveError (handleReceiveAmountChange initialState ''1,2x'' (Fin 0)) = NUMBERS_ONLY
   \<and> sendAmount (handleReceiveAmountChange initialState ''1,2x'' (Fin 0)) = ''1.00''
   \<and> receiveAmount (handleReceiveAmountChange initialState ''1,2x'' (Fin 0)) = ''2184.33''"
proof -
  have h: "\<not> isNumericInput (stripCommas ''1,2x'')"
    by (simp add: stripCommas_def isNumericInput_def numericPattern_def isDigit_def)
  note t = format_error_keeps_amounts [OF h, of initialState "Fin 0"]
  from t have 1: "sendError (handleSendAmountChange initialState ''1,2x'' (Fin 0)) = NUMBERS_ONLY"
    by (rule conjunct1)
  from t have 2: "sendAmount (handleSendAmountChange initialState ''1,2x'' (Fin 0)) = sendAmount initialState"
    by blast
  from t have 3: "receiveAmount (handleSendAmountChange initialState ''1,2x'' (Fin 0)) = receiveAmount initialState"
    by blast
  from t have 4: "receiveError (handleReceiveAmountChange initialState ''1,2x'' (Fin 0)) = NUMBERS_ONLY"
    by blast
  from t have 5: "sendAmount (handleReceiveAmountChange initialState ''1,2x'' (Fin 0)) = sendAmount initialState"
    by blast
  from t have 6: "receiveAmount (handleReceiveAmountChange initialState ''1,2x'' (Fin 0)) = receiveAmount initialState"
    by blast
  show ?thesis
    using h 1 2 3 4 5 6 by (simp only: initialState_fields) blast
qed

section \<open>The currency pair\<close>

lemma sendEffect_currencies:
  "sendCurrency (sendEffect s acc) = sendCurrency acc"
  "receiveCurrency (sendEffect s acc) = receiveCurrency acc"
  by (simp_all add: sendEffect_def Let_def)

lemma receiveEffect_currencies:
  "sendCurrency (receiveEffect s acc) = sendCurrency acc"
  "receiveCurrency (receiveEffect s acc) = receiveCurrency acc"
  by (simp_all add: receiveEffect_def Let_def)

lemma runEffects_currencies:
  "sendCurrency (runEffects old s) = sendCurrency s"
  "receiveCurrency (runEffects old s) = receiveCurrency s"
  by (simp_all add: runEffects_def Let_def sendEffect_currencies receiveEffect_currencies)

lemma handleSendAmountChange_currencies:
  "sendCurrency (handleSendAmountChange s v rnd) = sendCurrency s"
  "receiveCurrency (handleSendAmountChange s v rnd) = receiveCurrency s"
  by (simp_all add: handleSendAmountChange_def Let_def)

lemma handleReceiveAmountChange_currencies:
  "sendCurrency (handleReceiveAmountChange s v rnd) = sendCurrency s"
  "receiveCurrency (handleReceiveAmountChange s v rnd) = receiveCurrency s"
  by (simp_all add: handleReceiveAmountChange_def Let_def)

lemma handleSwap_currencies:
  "(sendCurrency (handleSwap s rnd) = sendCurrency s
      \<and> receiveCurrency (handleSwap s rnd) = receiveCurrency s)
   \<or> (sendCurrency (handleSwap s rnd) = receiveCurrency s
      \<and> receiveCurrency (handleSwap s rnd) = sendCurrency s)"
  by (simp add: handleSwap_def Let_def)

lemma handle_pairOk: "pairOk s \<Longrightarrow> pairOk (handle s ev)"
proof (cases ev)
  case (Swap rnd)
  assume "pairOk s"
  then show ?thesis
    using handleSwap_currencies [of s rnd] Swap unfolding pairOk_def by auto
qed (simp_all add: pairOk_def handleSendAmountChange_currencies
      handleReceiveAmountChange_currencies handleConfirm_def confirmTimeout_def
      newExchange_def handleInputFocus_def handleInputBlur_def shakeSendTimeout_def
      shakeReceiveTimeout_def)

lemma step_pairOk: "pairOk s \<Longrightarrow> pairOk (step s ev)"
  using handle_pairOk [of s ev] by (simp add: step_def pairOk_def runEffects_currencies)

lemma mount_currencies:
  "sendCurrency (mount rnd) = ETH" "receiveCurrency (mount rnd) = USDT"
  by (simp_all add: mount_def Let_def sendEffect_currencies receiveEffect_currencies
        initialState_fields)

lemma isRandom_zero: "isRandom (Fin 0)"
  by (simp add: rd_zero)

text \<open>
  C10. In every state reachable from the mounted component by edits, swaps, confirmations,
  resets and the other events of the page, the send currency and the receive currency
  differ, and the two of them are ETH and USDT.
\<close>

theorem currencies_distinct:
  "reachable s \<Longrightarrow>
     sendCurrency s \<noteq> receiveCurrency s \<and> {sendCurrency s, receiveCurrency s} = {ETH, USDT}"
proof (induction rule: reachable.induct)
  case (reach_mount rnd)
  show ?case by (simp add: mount_currencies)
next
  case (reach_step s ev)
  then have "pairOk s" by (simp add: pairOk_def)
  then have "pairOk (step s ev)" by (rule step_pairOk)
  then show ?case by (simp add: pairOk_def)
qed

theorem currencies_distinct_witness:
  "reachable (step (mount (Fin 0)) (Swap (Fin 0)))
   \<and> sendCurrency (step (mount (Fin 0)) (Swap (Fin 0)))
       \<noteq> receiveCurrency (step (mount (Fin 0)) (Swap (Fin 0)))
   \<and> {sendCurrency (step (mount (Fin 0)) (Swap (Fin 0))),
       receiveCurrency (step (mount (Fin 0)) (Swap (Fin 0)))} = {ETH, USDT}"
proof -
  have m: "reachable (mount (Fin 0))"
    using isRandom_zero by (rule reachable.reach_mount)
  have "\<not> isSuccess (mount (Fin 0))"
    by (simp add: mount_def Let_def sendEffect_def receiveEffect_def initialState_fields)
  then have "enabled (mount (Fin 0)) (Swap (Fin 0))"
    using isRandom_zero by simp
  with m have r: "reachable (step (mount (Fin 0)) (Swap (Fin 0)))"
    by (rule reachable.reach_step)
  show ?thesis
    using r currencies_distinct [OF r] by blast
qed

section \<open>Balance validation\<close>

lemmas parse_defs = parseFloat_def unsignedDecimal_def exponentPart_def digitsVal_def
  digitVal_def isWhiteSpace_def isDigit_def Let_def

lemma balance_values:
  "balance ETH = Fin (6710363444782039 / 2251799813685248)"
  "balance USDT = Fin 10000"
  unfolding balance.simps rd_298 by (rule refl)+

declare balance.simps [simp del]

lemma balance_finite: "\<exists>b. balance c = Fin b \<and> 0 < b"
proof (cases c)
  case ETH
  show ?thesis unfolding ETH balance_values
    by (rule exI [of _ "6710363444782039 / 2251799813685248"]) simp
next
  case USDT
  show ?thesis unfolding USDT balance_values
    by (rule exI [of _ 10000]) simp
qed

lemma positive_within:
  "\<not> isNaN x \<and> nle x (Fin b) \<and> ngt x (Fin 0) \<longleftrightarrow> (\<exists>r. x = Fin r \<and> 0 < r \<and> r \<le> b)"
  by (cases x) auto

text \<open>
  C6. \<^verbatim>\<open>isWithinBalance\<close> accepts the empty string; it accepts a non-empty string exactly
  when \<^verbatim>\<open>parseFloat\<close> reads a finite value from it that is greater than 0 and at most
  the balance of the asset (the binary64 value of 2.98 for ETH, 10000 for USDT). For a
  string that passes the format check and is refused here, \<^verbatim>\<open>validateAmount\<close> returns
  the message that names the asset; for one that passes both it returns the empty string.
\<close>

theorem isWithinBalance_spec:
  "isWithinBalance [] b
   \<and> (amount \<noteq> [] \<longrightarrow>
        (isWithinBalance amount (balance c) \<longleftrightarrow>
           (\<exists>r v. parseFloat amount = Fin r \<and> balance c = Fin v \<and> 0 < r \<and> r \<le> v)))
   \<and> balance ETH = rd (298 / 100) \<and> balance USDT = Fin 10000
   \<and> (isNumericInput amount \<and> \<not> isWithinBalance amount (balance c) \<longrightarrow>
        validateAmount amount c = (case c of ETH \<Rightarrow> ''Insufficient ETH balance''
                                     | USDT \<Rightarrow> ''Insufficient USDT balance''))
   \<and> (isNumericInput amount \<and> isWithinBalance amount (balance c) \<longrightarrow>
        validateAmount amount c = [])"
proof -
  obtain v where v: "balance c = Fin v" using balance_finite by blast
  have 1: "isWithinBalance [] b" by (simp add: isWithinBalance_def)
  have 2: "isWithinBalance amount (balance c) \<longleftrightarrow>
           (\<exists>r v. parseFloat amount = Fin r \<and> balance c = Fin v \<and> 0 < r \<and> r \<le> v)"
    if "amount \<noteq> []"
    using that positive_within [of "parseFloat amount" v]
    by (simp add: isWithinBalance_def Let_def v)
  have 3: "validateAmount amount c = (case c of ETH \<Rightarrow> ''Insufficient ETH balance''
                                     | USDT \<Rightarrow> ''Insufficient USDT balance'')"
    if "isNumericInput amount" "\<not> isWithinBalance amount (balance c)"
  proof -
    have "amount \<noteq> []" using that(2) by (auto simp: isWithinBalance_def)
    then show ?thesis
      using that by (cases c) (simp_all add: validateAmount_def INSUFFICIENT_ETH_def INSUFFICIENT_USDT_def)
  qed
  have 4: "validateAmount amount c = []"
    if "isNumericInput amount" "isWithinBalance amount (balance c)"
    using that by (simp add: validateAmount_def)
  show ?thesis using 1 2 3 4 by (simp add: balance.simps)
qed

lemma rd_5: "rd 5 = Fin 5"
  using rd_cert [of 5 2 "5 * 2 ^ 50"] by simp

lemma parse_5: "parseFloat ''5'' = Fin 5"
  by (simp add: parse_defs rd_5)

lemma parse_100: "parseFloat ''1.00'' = Fin 1"
  by (simp add: parse_defs rd_one)

lemma isNumericInput_5: "isNumericInput ''5''"
  by (simp add: isNumericInput_def numericPattern_def isDigit_def)

lemma isNumericInput_100: "isNumericInput ''1.00''"
  by (simp add: isNumericInput_def numericPattern_def isDigit_def)

theorem isWithinBalance_spec_witness:
  "isWithinBalance ''1.00'' (balance ETH) \<and> validateAmount ''1.00'' ETH = []
   \<and> \<not> isWithinBalance ''5'' (balance ETH)
   \<and> validateAmount ''5'' ETH = ''Insufficient ETH balance''
   \<and> isWithinBalance ''5'' (balance USDT)"
proof -
  have ne: "''1.00'' \<noteq> []" "''5'' \<noteq> []" by simp_all
  have a: "\<exists>r v. parseFloat ''1.00'' = Fin r \<and> balance ETH = Fin v \<and> 0 < r \<and> r \<le> v"
    unfolding parse_100 balance_values
    by (intro exI [of _ 1] exI [of _ "6710363444782039 / 2251799813685248"]) simp
  have b: "\<not> (\<exists>r v. parseFloat ''5'' = Fin r \<and> balance ETH = Fin v \<and> 0 < r \<and> r \<le> v)"
    by (simp add: parse_5 balance_values)
  have c: "\<exists>r v. parseFloat ''5'' = Fin r \<and> balance USDT = Fin v \<and> 0 < r \<and> r \<le> v"
    unfolding parse_5 balance_values
    by (intro exI [of _ 5] exI [of _ 10000]) simp
  from a ne isWithinBalance_spec [where amount = "''1.00''" and c = ETH] have 1: "isWithinBalance ''1.00'' (balance ETH)"
    by blast
  from b ne isWithinBalance_spec [where amount = "''5''" and c = ETH] have 2: "\<not> isWithinBalance ''5'' (balance ETH)"
    by blast
  from c ne isWithinBalance_spec [where amount = "''5''" and c = USDT] have 3: "isWithinBalance ''5'' (balance USDT)"
    by blast
  from 1 isNumericInput_100 isWithinBalance_spec [where amount = "''1.00''" and c = ETH]
  have 4: "validateAmount ''1.00'' ETH = []" by blast
  from 2 isNumericInput_5 isWithinBalance_spec [where amount = "''5''" and c = ETH]
  have 5: "validateAmount ''5'' ETH = (case ETH of ETH \<Rightarrow> ''Insufficient ETH balance''
                                     | USDT \<Rightarrow> ''Insufficient USDT balance'')" by blast
  show ?thesis using 1 2 3 4 5 by simp
qed

section \<open>The mounted component\<close>

lemma validate_100: "validateAmount ''1.00'' ETH = []"
  by (simp add: validateAmount_def isNumericInput_100 isWithinBalance_def Let_def
        parse_100 balance_values)

lemma mount_eq:
  "mount rnd = initialState\<lparr> transactionMinutes :=
      updateTransactionMinutes initialState ''1.00'' ''2184.33'' rnd \<rparr>"
  by (simp add: mount_def Let_def sendEffect_def receiveEffect_def initialState_fields
        validate_100)

lemma mount_fields:
  "sendAmount (mount rnd) = ''1.00''" "receiveAmount (mount rnd) = ''2184.33''"
  "sendError (mount rnd) = []" "receiveError (mount rnd) = []"
  "isLoading (mount rnd) = False" "isSuccess (mount rnd) = False"
  "sendErrorCount (mount rnd) = 0" "receiveErrorCount (mount rnd) = 0"
  "shakeSendError (mount rnd) = False" "shakeReceiveError (mount rnd) = False"
  "prevSendErrorRef (mount rnd) = []" "prevReceiveErrorRef (mount rnd) = []"
  by (simp_all add: mount_eq initialState_fields)

section \<open>The repeat counter and the shake animation\<close>

text \<open>
  An edit of the send field increments its counter exactly when it gives a non-empty
  error equal to the one remembered in \<^verbatim>\<open>prevSendErrorRef\<close>, and resets it to zero
  otherwise; it remembers its own error. The shake flag is set when, in addition, the
  counter of the render before the edit was at least 2.
\<close>

lemma send_repeat_counter:
  fixes s v rnd
  defines "error \<equiv> validateAmount (stripCommas v) (sendCurrency s)"
  shows "sendErrorCount (handleSendAmountChange s v rnd)
           = (if error \<noteq> [] \<and> error = prevSendErrorRef s then sendErrorCount s + 1 else 0)"
    and "prevSendErrorRef (handleSendAmountChange s v rnd) = error"
    and "shakeSendError (handleSendAmountChange s v rnd)
           \<longleftrightarrow> shakeSendError s
               \<or> (error \<noteq> [] \<and> error = prevSendErrorRef s \<and> 2 \<le> sendErrorCount s)"
  by (simp_all add: handleSendAmountChange_def Let_def error_def)

text \<open>The same for a format error of the receive field; a well-formed edit resets its counter.\<close>

lemma receive_repeat_counter:
  "receiveErrorCount (handleReceiveAmountChange s v rnd)
     = (if \<not> isNumericInput (stripCommas v) \<and> prevReceiveErrorRef s = NUMBERS_ONLY
        then receiveErrorCount s + 1 else 0)"
  "shakeReceiveError (handleReceiveAmountChange s v rnd)
     \<longleftrightarrow> shakeReceiveError s
         \<or> (\<not> isNumericInput (stripCommas v) \<and> prevReceiveErrorRef s = NUMBERS_ONLY
            \<and> 2 \<le> receiveErrorCount s)"
  by (auto simp: handleReceiveAmountChange_def Let_def)

text \<open>An edit of the send field that fails the format check, as one update of the state.\<close>

lemma send_format_error:
  assumes "\<not> isNumericInput (stripCommas v)"
  shows "handleSendAmountChange s v rnd =
     s\<lparr> sendErrorCount := (if prevSendErrorRef s = NUMBERS_ONLY then sendErrorCount s + 1 else 0),
        shakeSendError := (if prevSendErrorRef s = NUMBERS_ONLY \<and> 2 \<le> sendErrorCount s
                           then True else shakeSendError s),
        sendError := NUMBERS_ONLY, prevSendErrorRef := NUMBERS_ONLY \<rparr>"
  using assms
  by (simp add: handleSendAmountChange_def Let_def validateAmount_def insufficient_not_format)

lemma send_format_error_step:
  assumes "\<not> isNumericInput (stripCommas v)"
  shows "step s (SendChange v rnd) =
     s\<lparr> sendErrorCount := (if prevSendErrorRef s = NUMBERS_ONLY then sendErrorCount s + 1 else 0),
        shakeSendError := (if prevSendErrorRef s = NUMBERS_ONLY \<and> 2 \<le> sendErrorCount s
                           then True else shakeSendError s),
        sendError := NUMBERS_ONLY, prevSendErrorRef := NUMBERS_ONLY \<rparr>"
  unfolding step_def handle.simps send_format_error [OF assms]
  by (rule runEffects_same) simp_all

lemma not_numeric_abc: "\<not> isNumericInput (stripCommas ''abc'')"
  by (simp add: stripCommas_def isNumericInput_def numericPattern_def isDigit_def)

text \<open>
  C8, on the code. Three consecutive edits of the send field with the same format error
  leave the repeat counter at 2 and the shake flag unset; it is the fourth that sets the
  flag. The comment beside the test reads "Trigger shake on 3rd consecutive error of the
  same type".
\<close>

theorem shake_on_fourth_error:
  "sendError (run (mount (Fin 0)) (replicate 3 (SendChange ''abc'' (Fin 0)))) = NUMBERS_ONLY
   \<and> sendErrorCount (run (mount (Fin 0)) (replicate 3 (SendChange ''abc'' (Fin 0)))) = 2
   \<and> shakeSendError (run (mount (Fin 0)) (replicate 3 (SendChange ''abc'' (Fin 0)))) = False
   \<and> shakeSendError (run (mount (Fin 0)) (replicate 4 (SendChange ''abc'' (Fin 0)))) = True"
proof -
  define e where "e = SendChange ''abc'' (Fin 0)"
  define s1 where "s1 = step (mount (Fin 0)) e"
  define s2 where "s2 = step s1 e"
  define s3 where "s3 = step s2 e"
  define s4 where "s4 = step s3 e"
  note st = send_format_error_step [OF not_numeric_abc]
  have 1: "prevSendErrorRef s1 = NUMBERS_ONLY" "sendErrorCount s1 = 0" "shakeSendError s1 = False"
    unfolding s1_def e_def st by (simp_all add: mount_fields insufficient_not_format)
  have 2: "prevSendErrorRef s2 = NUMBERS_ONLY" "sendErrorCount s2 = 1" "shakeSendError s2 = False"
    unfolding s2_def e_def st by (simp_all add: 1)
  have 3: "prevSendErrorRef s3 = NUMBERS_ONLY" "sendErrorCount s3 = 2" "shakeSendError s3 = False"
    "sendError s3 = NUMBERS_ONLY"
    unfolding s3_def e_def st by (simp_all add: 2)
  have 4: "shakeSendError s4 = True"
    unfolding s4_def e_def st by (simp add: 3)
  have r3: "run (mount (Fin 0)) (replicate 3 e) = s3"
    by (simp add: numeral_3_eq_3 s1_def s2_def s3_def)
  have r4: "run (mount (Fin 0)) (replicate 4 e) = s4"
    by (simp add: numeral_Bit0 s1_def s2_def s3_def s4_def)
  show ?thesis
    unfolding e_def [symmetric] r3 r4 using 3 4 by simp
qed

section \<open>The estimated time\<close>

lemma isNumericInput_dot: "isNumericInput ''.''"
  by (simp add: isNumericInput_def numericPattern_def isDigit_def)

lemma parse_dot: "parseFloat ''.'' = NaN"
  by (simp add: parse_defs)

lemma calculateTransactionMinutes_NaN: "calculateTransactionMinutes NaN rnd = NaN"
  by (simp add: calculateTransactionMinutes_def Let_def)

lemma nmul_NaN: "nmul NaN y = NaN"
  by simp

lemma nmax_NaN: "nmax NaN y = NaN"
  by simp

lemma updateTransactionMinutes_dot:
  "updateTransactionMinutes s ''.'' r rnd = NaN"
  by (simp add: updateTransactionMinutes_def Let_def orZero_def parse_dot
        calculateTransactionMinutes_NaN)

lemma validate_dot: "validateAmount ''.'' c \<noteq> NUMBERS_ONLY"
  by (simp add: validateAmount_def isNumericInput_dot insufficient_not_format)

lemma runEffects_minutes: "transactionMinutes (runEffects old s) = transactionMinutes s"
  by (simp add: runEffects_def sendEffect_def receiveEffect_def Let_def)

lemma rd_not_NaN: "rd r \<noteq> NaN"
  by (simp add: rd_def Let_def)

lemma rd_005: "rd (5 / 100) = Fin (3602879701896397 / 72057594037927936)"
  using rd_cert [of "5 / 100" "- 5" 7205759403792794] by simp

lemma rd_07: "rd (7 / 10) = Fin (3152519739159347 / 4503599627370496)"
  using rd_cert [of "7 / 10" "- 1" 6305039478318694] by simp

lemma rd_06: "rd (6 / 10) = Fin (5404319552844595 / 9007199254740992)"
  using rd_cert [of "6 / 10" "- 1" 5404319552844595] by simp

text \<open>The random factor is a finite number between 0.69 and 1.31.\<close>

lemma randomFactor_range:
  assumes "isRandom rnd"
  shows "\<exists>f. nadd (rd (7 / 10)) (nmul rnd (rd (6 / 10))) = Fin f \<and> 69 / 100 \<le> f \<and> f \<le> 131 / 100"
proof -
  from assms obtain r where r: "rnd = Fin r" "0 \<le> r" "r < 1" by (cases rnd) auto
  define t where "t = r * (5404319552844595 / 9007199254740992)"
  have t0: "0 \<le> t" using r(2) by (simp add: t_def)
  have t1: "t \<le> 6 / 10" using r(3) by (simp add: t_def)
  then have "t \<le> 10 ^ 30" by simp
  from rd_error_simple [OF t0 this] obtain v where
    v: "rd t = Fin v" "0 \<le> v" "\<bar>v - t\<bar> \<le> t / 2 ^ 53 + 1 / 10 ^ 30" by blast
  have vb: "v \<le> 601 / 1000" using t0 t1 v(3) unfolding abs_le_iff by simp
  define w where "w = 3152519739159347 / 4503599627370496 + v"
  have w0: "0 \<le> w" using v(2) by (simp add: w_def)
  have wb: "699 / 1000 \<le> w \<and> w \<le> 1301 / 1000" using v(2) vb by (simp add: w_def)
  then have "w \<le> 10 ^ 30" by simp
  from rd_error_simple [OF w0 this] obtain f where
    f: "rd w = Fin f" "0 \<le> f" "\<bar>f - w\<bar> \<le> w / 2 ^ 53 + 1 / 10 ^ 30" by blast
  have fb: "69 / 100 \<le> f \<and> f \<le> 131 / 100" using wb f(3) unfolding abs_le_iff by simp
  have "nadd (rd (7 / 10)) (nmul rnd (rd (6 / 10))) = Fin f"
    unfolding rd_07 rd_06 r(1) using v(1) f(1) by (simp add: t_def w_def)
  with fb show ?thesis by blast
qed

lemma clamp_round:
  assumes "x \<noteq> NaN"
  shows "\<exists>k. nmax (Fin 5) (nmin (Fin 30) (nround x)) = Fin (of_int k) \<and> 5 \<le> k \<and> k \<le> 30"
proof (cases x)
  case NaN
  with assms show ?thesis by simp
next
  case PosInf
  show ?thesis unfolding PosInf by (intro exI [of _ 30]) simp
next
  case NegInf
  show ?thesis unfolding NegInf by (intro exI [of _ 5]) simp
next
  case (Fin a)
  define k where "k = \<lfloor>a + 1 / 2\<rfloor>"
  have nr: "nround x = Fin (of_int k)" by (simp add: Fin k_def)
  show ?thesis
  proof (cases "k \<le> 30")
    case le: True
    show ?thesis
    proof (cases "5 \<le> k")
      case True
      show ?thesis unfolding nr using le True by (intro exI [of _ k]) auto
    next
      case False
      show ?thesis unfolding nr using le False by (intro exI [of _ 5]) auto
    qed
  next
    case False
    show ?thesis unfolding nr using False by (intro exI [of _ 30]) auto
  qed
qed

lemma nmul_pos_not_NaN:
  assumes "x \<noteq> NaN" "0 < c"
  shows "nmul x (Fin c) \<noteq> NaN"
  using assms by (cases x) (simp_all add: rd_not_NaN)

lemma nadd_fin_not_NaN:
  assumes "x \<noteq> NaN"
  shows "nadd (Fin c) x \<noteq> NaN"
  using assms by (cases x) (simp_all add: rd_not_NaN)

text \<open>
  For every value other than \<open>NaN\<close> and every random draw the estimated time is a whole
  number of minutes from 5 to 30.
\<close>

lemma calculateTransactionMinutes_range:
  assumes "v \<noteq> NaN" "isRandom rnd"
  shows "\<exists>k. calculateTransactionMinutes v rnd = Fin (of_int k) \<and> 5 \<le> k \<and> k \<le> 30"
proof -
  from randomFactor_range [OF assms(2)] obtain f where
    f: "nadd (rd (7 / 10)) (nmul rnd (rd (6 / 10))) = Fin f" "69 / 100 \<le> f" by blast
  have "nmul v (rd (5 / 100)) \<noteq> NaN"
    unfolding rd_005 using assms(1) by (rule nmul_pos_not_NaN) simp
  then have "nadd (Fin 10) (nmul v (rd (5 / 100))) \<noteq> NaN" by (rule nadd_fin_not_NaN)
  moreover have "0 < f" using f(2) by simp
  ultimately have "nmul (nadd (Fin 10) (nmul v (rd (5 / 100)))) (Fin f) \<noteq> NaN"
    by (rule nmul_pos_not_NaN)
  from clamp_round [OF this] show ?thesis
    unfolding calculateTransactionMinutes_def Let_def f(1) .
qed

text \<open>
  C9, on the code. For the value \<open>NaN\<close> the estimated time is \<open>NaN\<close>, whatever the random
  draw, and the page reaches that value: a lone period typed into the send field passes
  the format check, reads as \<open>NaN\<close>, and is stored as the estimated time. For every
  other value the result is a whole number from 5 to 30
  (\<open>calculateTransactionMinutes_range\<close>).
\<close>

theorem transaction_minutes_NaN:
  "calculateTransactionMinutes NaN rnd = NaN
   \<and> transactionMinutes (handleSendAmountChange s ''.'' rnd) = NaN
   \<and> transactionMinutes (step s (SendChange ''.'' rnd)) = NaN"
proof -
  have h: "transactionMinutes (handleSendAmountChange s ''.'' rnd) = NaN"
    using validate_dot [of "sendCurrency s"]
    by (simp add: handleSendAmountChange_def Let_def stripCommas_def updateTransactionMinutes_dot)
  show ?thesis
    using h by (simp add: calculateTransactionMinutes_NaN step_def runEffects_minutes)
qed

section \<open>Decimal digits\<close>

lemma digitChar_cases:
  fixes d :: nat
  assumes "d < 10"
  shows "d = 0 \<or> d = 1 \<or> d = 2 \<or> d = 3 \<or> d = 4 \<or> d = 5 \<or> d = 6 \<or> d = 7 \<or> d = 8 \<or> d = 9"
  using assms by presburger

lemma isDigit_digitChar: "d < 10 \<Longrightarrow> isDigit (digitChar d)"
  using digitChar_cases [of d] by (auto simp: isDigit_def digitChar_def)

lemma digitVal_digitChar: "d < 10 \<Longrightarrow> digitVal (digitChar d) = d"
  using digitChar_cases [of d] by (auto simp: digitVal_def digitChar_def)

lemma digitsVal_Nil: "digitsVal [] = 0"
  by (simp add: digitsVal_def)

lemma digitsVal_snoc: "digitsVal (ds @ [c]) = 10 * digitsVal ds + digitVal c"
  by (simp add: digitsVal_def)

lemma digitsVal_append:
  "digitsVal (a @ b) = digitsVal a * 10 ^ length b + digitsVal b"
proof (induction b rule: rev_induct)
  case Nil
  show ?case by (simp add: digitsVal_Nil)
next
  case (snoc c b)
  have "digitsVal (a @ b @ [c]) = 10 * digitsVal (a @ b) + digitVal c"
    using digitsVal_snoc [of "a @ b" c] by simp
  then show ?case
    by (simp add: snoc.IH digitsVal_snoc algebra_simps)
qed

lemma digitsVal_zeros: "digitsVal (replicate k (CHR ''0'')) = 0"
proof (induction k)
  case 0
  show ?case by (simp add: digitsVal_Nil)
next
  case (Suc k)
  have "replicate (Suc k) (CHR ''0'') = replicate k (CHR ''0'') @ [CHR ''0'']"
    by (simp add: replicate_append_same)
  then show ?case
    using digitsVal_snoc [of "replicate k (CHR ''0'')" "CHR ''0''"] Suc
    by (simp add: digitVal_def)
qed

lemma digitsVal_padded: "digitsVal (replicate k (CHR ''0'') @ m) = digitsVal m"
  by (simp add: digitsVal_append digitsVal_zeros)

lemma isDigit_zero: "isDigit (CHR ''0'')"
  by (simp add: isDigit_def)

lemma showNat_digits: "list_all isDigit (showNat n)"
proof (induction n rule: showNat.induct)
  case (1 n)
  show ?case
  proof (cases "n < 10")
    case True
    then show ?thesis by (simp add: showNat.simps [of n] isDigit_digitChar)
  next
    case False
    then show ?thesis
      using "1.IH" by (simp add: showNat.simps [of n] isDigit_digitChar)
  qed
qed

lemma showNat_nonempty: "showNat n \<noteq> []"
  by (simp add: showNat.simps [of n])

lemma digitsVal_showNat: "digitsVal (showNat n) = n"
proof (induction n rule: showNat.induct)
  case (1 n)
  show ?case
  proof (cases "n < 10")
    case True
    then show ?thesis
      using digitsVal_snoc [of "[]" "digitChar n"]
      by (simp add: showNat.simps [of n] digitsVal_Nil digitVal_digitChar)
  next
    case False
    then show ?thesis
      using "1.IH" by (simp add: showNat.simps [of n] digitsVal_snoc digitVal_digitChar)
  qed
qed

section \<open>Fixed-point notation\<close>

lemma toFixed_neg: "r < 0 \<Longrightarrow> toFixed (Fin r) f = ''-'' @ toFixed (Fin (- r)) f"
  by (simp add: toFixed_def Let_def)

lemma toFixed_nonneg:
  assumes "0 \<le> r" "r < 10 ^ 21" "0 < f"
  shows "\<exists>ip fp. toFixed (Fin r) f = ip @ ''.'' @ fp
           \<and> ip \<noteq> [] \<and> list_all isDigit ip \<and> list_all isDigit fp \<and> length fp = f
           \<and> digitsVal ip * 10 ^ f + digitsVal fp = nat \<lfloor>r * 10 ^ f + 1 / 2\<rfloor>"
proof -
  define n where "n = nat \<lfloor>r * 10 ^ f + 1 / 2\<rfloor>"
  define m where "m = showNat n"
  define m' where "m' = (if length m \<le> f then replicate (f + 1 - length m) (CHR ''0'') @ m else m)"
  define ip where "ip = take (length m' - f) m'"
  define fp where "fp = drop (length m' - f) m'"
  have tf: "toFixed (Fin r) f = ip @ ''.'' @ fp"
    using assms by (simp add: toFixed_def Let_def n_def m_def m'_def ip_def fp_def)
  have dm: "list_all isDigit m" unfolding m_def by (rule showNat_digits)
  have dm': "list_all isDigit m'"
    using dm by (simp add: m'_def isDigit_zero list_all_iff)
  have len: "f < length m'" by (simp add: m'_def)
  have val: "digitsVal m' = n"
    by (simp add: m'_def digitsVal_padded m_def digitsVal_showNat)
  have cat: "ip @ fp = m'" by (simp add: ip_def fp_def)
  have lfp: "length fp = f" using len by (simp add: fp_def)
  have "m' \<noteq> []" using len by auto
  then have ne: "ip \<noteq> []" using len by (simp add: ip_def)
  have dig: "list_all isDigit ip" "list_all isDigit fp"
    using dm' unfolding cat [symmetric] by simp_all
  have "digitsVal ip * 10 ^ f + digitsVal fp = n"
    using digitsVal_append [of ip fp] lfp val unfolding cat by simp
  then show ?thesis
    using tf ne dig lfp unfolding n_def by blast
qed

lemma round_half_up_near:
  assumes "0 \<le> x"
  shows "\<bar>real (nat \<lfloor>x + 1 / 2\<rfloor>) - x\<bar> \<le> 1 / 2"
proof -
  have "0 \<le> \<lfloor>x + 1 / 2\<rfloor>" using assms by simp
  then have "real (nat \<lfloor>x + 1 / 2\<rfloor>) = of_int \<lfloor>x + 1 / 2\<rfloor>" by simp
  then show ?thesis by linarith
qed

text \<open>
  Below \<open>10 ^ 21\<close> the result of \<^verbatim>\<open>toFixed\<close> is a sign, an integer part, a period and
  exactly \<open>f\<close> fraction digits, and the numeral differs from the magnitude of the value
  by at most half a unit of the last digit.
\<close>

lemma toFixed_rounds:
  assumes "\<bar>r\<bar> < 10 ^ 21" "0 < f"
  shows "\<exists>ip fp. toFixed (Fin r) f = (if r < 0 then ''-'' else []) @ ip @ ''.'' @ fp
           \<and> ip \<noteq> [] \<and> list_all isDigit ip \<and> list_all isDigit fp \<and> length fp = f
           \<and> \<bar>real (digitsVal ip) + real (digitsVal fp) / 10 ^ f - \<bar>r\<bar>\<bar> \<le> 1 / (2 * 10 ^ f)"
proof -
  have a: "0 \<le> \<bar>r\<bar>" by simp
  from toFixed_nonneg [OF a assms] obtain ip fp where
    tf: "toFixed (Fin \<bar>r\<bar>) f = ip @ ''.'' @ fp" and ne: "ip \<noteq> []"
    and dig: "list_all isDigit ip" "list_all isDigit fp" and lfp: "length fp = f"
    and val: "digitsVal ip * 10 ^ f + digitsVal fp = nat \<lfloor>\<bar>r\<bar> * 10 ^ f + 1 / 2\<rfloor>"
    by blast
  have str: "toFixed (Fin r) f = (if r < 0 then ''-'' else []) @ ip @ ''.'' @ fp"
  proof (cases "r < 0")
    case True
    then show ?thesis using toFixed_neg [OF True, of f] tf by simp
  next
    case False
    then show ?thesis using tf by simp
  qed
  have "0 \<le> \<bar>r\<bar> * 10 ^ f" by simp
  from round_half_up_near [OF this]
  have "\<bar>real (digitsVal ip * 10 ^ f + digitsVal fp) - \<bar>r\<bar> * 10 ^ f\<bar> \<le> 1 / 2"
    unfolding val .
  then have "\<bar>(real (digitsVal ip) + real (digitsVal fp) / 10 ^ f - \<bar>r\<bar>) * 10 ^ f\<bar> \<le> 1 / 2"
    by (simp add: algebra_simps)
  then have "\<bar>real (digitsVal ip) + real (digitsVal fp) / 10 ^ f - \<bar>r\<bar>\<bar> * 10 ^ f \<le> 1 / 2"
    by (simp add: abs_mult)
  then have "\<bar>real (digitsVal ip) + real (digitsVal fp) / 10 ^ f - \<bar>r\<bar>\<bar> \<le> 1 / 2 / 10 ^ f"
    by (simp add: pos_le_divide_eq)
  then have near: "\<bar>real (digitsVal ip) + real (digitsVal fp) / 10 ^ f - \<bar>r\<bar>\<bar> \<le> 1 / (2 * 10 ^ f)"
    by simp
  show ?thesis using str ne dig lfp near by blast
qed

section \<open>The amount converter\<close>

lemma ETH_TO_USDT_value: "ETH_TO_USDT = Fin (1200848116949975 / 549755813888)"
  unfolding ETH_TO_USDT_def rd_218433 by (rule refl)

lemma USDT_TO_ETH_value: "USDT_TO_ETH = Fin (8445035353499495 / 18446744073709551616)"
  unfolding USDT_TO_ETH_def rd_218433 using rd_inv by simp

lemma rate_values:
  "rate ETH USDT = Fin (1200848116949975 / 549755813888)"
  "rate USDT ETH = Fin (8445035353499495 / 18446744073709551616)"
  by (simp_all add: rate_def ETH_TO_USDT_value USDT_TO_ETH_value)

lemma rd_2: "rd 2 = Fin 2"
  using rd_cert [of 2 1 "2 ^ 52"] by simp

lemma rd_1000: "rd 1000 = Fin 1000"
  using rd_cert [of 1000 9 8796093022208000] by simp

lemma parse_200: "parseFloat ''2.00'' = Fin 2"
  by (simp add: parse_defs rd_2)

lemma parse_1000: "parseFloat ''1000'' = Fin 1000"
  by (simp add: parse_defs rd_1000)

lemma parse_1: "parseFloat ''1'' = Fin 1"
  by (simp add: parse_defs rd_one)

lemma product_200:
  "nmul (Fin 2) (Fin (1200848116949975 / 549755813888)) = Fin (1200848116949975 / 274877906944)"
  using rd_cert [of "2 * (1200848116949975 / 549755813888)" 12 4803392467799900] by simp

lemma product_1000:
  "nmul (Fin 1000) (Fin (8445035353499495 / 18446744073709551616))
     = Fin (8247104837401851 / 18014398509481984)"
  using rd_cert [of "1000 * (8445035353499495 / 18446744073709551616)" "- 2" 8247104837401851]
  by simp

lemma product_1:
  "nmul (Fin 1) (Fin (8445035353499495 / 18446744073709551616))
     = Fin (8445035353499495 / 18446744073709551616)"
  using rd_cert [of "8445035353499495 / 18446744073709551616" "- 12" 8445035353499495]
  by simp

lemma showNat_5: "showNat 5 = ''5''"
  by (simp add: showNat.simps digitChar_def)

lemma replicate_4_zero: "replicate 4 (CHR ''0'') = ''0000''"
  by (simp add: eval_nat_numeral)

lemma toFixed_200: "toFixed (Fin (1200848116949975 / 274877906944)) 2 = ''4368.66''"
  by (simp add: toFixed_def Let_def showNat.simps digitChar_def)

lemma toFixed_1000: "toFixed (Fin (8247104837401851 / 18014398509481984)) 4 = ''0.4578''"
  by (simp add: toFixed_def Let_def showNat.simps digitChar_def)

lemma toFixed_1: "toFixed (Fin (8445035353499495 / 18446744073709551616)) 4 = ''0.0005''"
  by (simp add: toFixed_def Let_def showNat_5 replicate_4_zero)

lemma calculateExchangeAmount_parsed:
  "amount \<noteq> [] \<Longrightarrow> \<not> isNaN (parseFloat amount) \<Longrightarrow>
   calculateExchangeAmount amount a b = toFixed (nmul (parseFloat amount) (rate a b)) (precision b)"
  by (simp add: calculateExchangeAmount_def Let_def)

lemma example_200: "calculateExchangeAmount ''2.00'' ETH USDT = ''4368.66''"
proof -
  have "calculateExchangeAmount ''2.00'' ETH USDT
        = toFixed (nmul (parseFloat ''2.00'') (rate ETH USDT)) (precision USDT)"
    by (rule calculateExchangeAmount_parsed) (simp_all add: parse_200)
  also have "\<dots> = ''4368.66''"
    unfolding parse_200 rate_values product_200 precision.simps by (rule toFixed_200)
  finally show ?thesis .
qed

lemma example_1000: "calculateExchangeAmount ''1000'' USDT ETH = ''0.4578''"
proof -
  have "calculateExchangeAmount ''1000'' USDT ETH
        = toFixed (nmul (parseFloat ''1000'') (rate USDT ETH)) (precision ETH)"
    by (rule calculateExchangeAmount_parsed) (simp_all add: parse_1000)
  also have "\<dots> = ''0.4578''"
    unfolding parse_1000 rate_values product_1000 precision.simps by (rule toFixed_1000)
  finally show ?thesis .
qed

lemma example_1: "calculateExchangeAmount ''1'' USDT ETH = ''0.0005''"
proof -
  have "calculateExchangeAmount ''1'' USDT ETH
        = toFixed (nmul (parseFloat ''1'') (rate USDT ETH)) (precision ETH)"
    by (rule calculateExchangeAmount_parsed) (simp_all add: parse_1)
  also have "\<dots> = ''0.0005''"
    unfolding parse_1 rate_values product_1 precision.simps by (rule toFixed_1)
  finally show ?thesis .
qed

text \<open>
  C1, as the code has it. \<^verbatim>\<open>calculateExchangeAmount\<close> returns the empty string for the
  empty string and for a string from which \<^verbatim>\<open>parseFloat\<close> reads no number. Otherwise it
  returns \<^verbatim>\<open>toFixed\<close> of the product of the parsed amount and the rate of the direction,
  at the precision of the target asset. Where that product is finite and below \<open>10 ^ 21\<close>
  in magnitude, the result is a sign, an integer part and exactly that many fraction
  digits, and it is the numeral nearest to the product: it differs from it by at most
  half a unit of the last digit. At the rate 2184.33, \<^verbatim>\<open>"2.00"\<close> from ETH to USDT gives
  \<^verbatim>\<open>"4368.66"\<close> and \<^verbatim>\<open>"1000"\<close> from USDT to ETH gives \<^verbatim>\<open>"0.4578"\<close>.
\<close>

theorem calculateExchangeAmount_spec:
  "calculateExchangeAmount [] a b = []
   \<and> (parseFloat amount = NaN \<longrightarrow> calculateExchangeAmount amount a b = [])
   \<and> (amount \<noteq> [] \<and> parseFloat amount \<noteq> NaN \<longrightarrow>
        calculateExchangeAmount amount a b
          = toFixed (nmul (parseFloat amount) (rate a b)) (precision b))
   \<and> rate ETH USDT = rd (218433 / 100)
   \<and> rate USDT ETH = ndiv (Fin 1) (rd (218433 / 100))
   \<and> (amount \<noteq> [] \<and> nmul (parseFloat amount) (rate a b) = Fin p \<and> \<bar>p\<bar> < 10 ^ 21 \<longrightarrow>
        (\<exists>ip fp. calculateExchangeAmount amount a b
                    = (if p < 0 then ''-'' else []) @ ip @ ''.'' @ fp
           \<and> ip \<noteq> [] \<and> list_all isDigit ip \<and> list_all isDigit fp
           \<and> length fp = precision b
           \<and> \<bar>real (digitsVal ip) + real (digitsVal fp) / 10 ^ precision b - \<bar>p\<bar>\<bar>
                 \<le> 1 / (2 * 10 ^ precision b)))
   \<and> calculateExchangeAmount ''2.00'' ETH USDT = ''4368.66''
   \<and> calculateExchangeAmount ''1000'' USDT ETH = ''0.4578''"
proof -
  have 1: "calculateExchangeAmount [] a b = []"
    by (simp add: calculateExchangeAmount_def)
  have 2: "calculateExchangeAmount amount a b = []" if "parseFloat amount = NaN"
    using that by (simp add: calculateExchangeAmount_def Let_def)
  have 3: "calculateExchangeAmount amount a b
          = toFixed (nmul (parseFloat amount) (rate a b)) (precision b)"
    if "amount \<noteq> []" "parseFloat amount \<noteq> NaN"
  proof -
    have "\<not> isNaN (parseFloat amount)" using that(2) by (cases "parseFloat amount") simp_all
    with that(1) show ?thesis by (rule calculateExchangeAmount_parsed)
  qed
  have 4: "rate ETH USDT = rd (218433 / 100)" "rate USDT ETH = ndiv (Fin 1) (rd (218433 / 100))"
    by (simp_all add: rate_def ETH_TO_USDT_def USDT_TO_ETH_def)
  have 5: "\<exists>ip fp. calculateExchangeAmount amount a b
                    = (if p < 0 then ''-'' else []) @ ip @ ''.'' @ fp
           \<and> ip \<noteq> [] \<and> list_all isDigit ip \<and> list_all isDigit fp
           \<and> length fp = precision b
           \<and> \<bar>real (digitsVal ip) + real (digitsVal fp) / 10 ^ precision b - \<bar>p\<bar>\<bar>
                 \<le> 1 / (2 * 10 ^ precision b)"
    if h: "amount \<noteq> []" "nmul (parseFloat amount) (rate a b) = Fin p" "\<bar>p\<bar> < 10 ^ 21"
  proof -
    have "parseFloat amount \<noteq> NaN" using h(2) by auto
    from 3 [OF h(1) this]
    have c: "calculateExchangeAmount amount a b = toFixed (Fin p) (precision b)"
      unfolding h(2) .
    have "0 < precision b" by (cases b) simp_all
    from toFixed_rounds [OF h(3) this] show ?thesis unfolding c .
  qed
  show ?thesis
    using 1 2 3 4 5 example_200 example_1000 by blast
qed

theorem calculateExchangeAmount_spec_witness:
  "parseFloat ''.'' = NaN \<and> calculateExchangeAmount ''.'' ETH USDT = []
   \<and> calculateExchangeAmount ''1'' USDT ETH
       = toFixed (nmul (parseFloat ''1'') (rate USDT ETH)) (precision ETH)
   \<and> (\<exists>ip fp. calculateExchangeAmount ''1'' USDT ETH = ip @ ''.'' @ fp
         \<and> ip \<noteq> [] \<and> list_all isDigit ip \<and> list_all isDigit fp \<and> length fp = 4
         \<and> \<bar>real (digitsVal ip) + real (digitsVal fp) / 10 ^ 4
               - 8445035353499495 / 18446744073709551616\<bar> \<le> 1 / (2 * 10 ^ 4))"
proof -
  have a: "parseFloat ''.'' = NaN" by (rule parse_dot)
  have b: "''1'' \<noteq> [] \<and> parseFloat ''1'' \<noteq> NaN" by (simp add: parse_1)
  have p: "nmul (parseFloat ''1'') (rate USDT ETH) = Fin (8445035353499495 / 18446744073709551616)"
    unfolding parse_1 rate_values by (rule product_1)
  have c: "''1'' \<noteq> [] \<and> nmul (parseFloat ''1'') (rate USDT ETH)
               = Fin (8445035353499495 / 18446744073709551616)
           \<and> \<bar>8445035353499495 / 18446744073709551616 :: real\<bar> < 10 ^ 21"
    using p by simp
  note t1 = calculateExchangeAmount_spec [where amount = "''.''" and a = ETH and b = USDT]
  note t2 = calculateExchangeAmount_spec [where amount = "''1''" and a = USDT and b = ETH
      and p = "8445035353499495 / 18446744073709551616"]
  from a t1 have 1: "calculateExchangeAmount ''.'' ETH USDT = []" by blast
  from b t2 have 2: "calculateExchangeAmount ''1'' USDT ETH
       = toFixed (nmul (parseFloat ''1'') (rate USDT ETH)) (precision ETH)" by blast
  from c t2 have 3: "\<exists>ip fp. calculateExchangeAmount ''1'' USDT ETH
                    = (if (8445035353499495 / 18446744073709551616 :: real) < 0 then ''-'' else [])
                        @ ip @ ''.'' @ fp
           \<and> ip \<noteq> [] \<and> list_all isDigit ip \<and> list_all isDigit fp
           \<and> length fp = precision ETH
           \<and> \<bar>real (digitsVal ip) + real (digitsVal fp) / 10 ^ precision ETH
                 - \<bar>8445035353499495 / 18446744073709551616\<bar>\<bar>
                 \<le> 1 / (2 * 10 ^ precision ETH)" by blast
  have 4: "\<exists>ip fp. calculateExchangeAmount ''1'' USDT ETH = ip @ ''.'' @ fp
         \<and> ip \<noteq> [] \<and> list_all isDigit ip \<and> list_all isDigit fp \<and> length fp = 4
         \<and> \<bar>real (digitsVal ip) + real (digitsVal fp) / 10 ^ 4
               - 8445035353499495 / 18446744073709551616\<bar> \<le> 1 / (2 * 10 ^ 4)"
    using 3 by simp
  show ?thesis using a 1 2 4 by blast
qed

text \<open>
  C1 as stated fails: the result is rounded, not truncated. One USDT is the product
  \<open>0.000457\<dots>\<close> in ETH, below \<open>0.0005\<close>, and the result is \<^verbatim>\<open>"0.0005"\<close>, which no
  truncation of the product gives.
\<close>

theorem calculateExchangeAmount_rounds_up:
  "calculateExchangeAmount ''1'' USDT ETH = ''0.0005''
   \<and> calculateExchangeAmount ''1'' USDT ETH \<noteq> ''0.0004''
   \<and> nmul (parseFloat ''1'') (rate USDT ETH) = Fin (8445035353499495 / 18446744073709551616)
   \<and> (8445035353499495 / 18446744073709551616 :: real) < 5 / 10 ^ 4"
proof -
  have p: "nmul (parseFloat ''1'') (rate USDT ETH) = Fin (8445035353499495 / 18446744073709551616)"
    unfolding parse_1 rate_values by (rule product_1)
  show ?thesis using p by (simp add: example_1)
qed

section \<open>The round trip from ETH to USDT and back\<close>




























section \<open>An amount just above the balance\<close>

lemma parse_298001: "parseFloat ''2.98001'' = Fin (419399122673761 / 140737488355328)"
  using rd_cert [of "298001 / 100000" 1 6710385962780176] by (simp add: parse_defs)

lemma product_298001:
  "nmul (Fin (419399122673761 / 140737488355328)) (Fin (1200848116949975 / 549755813888))
     = Fin (3578539396992095 / 549755813888)"
  using rd_cert [of "419399122673761 / 140737488355328 * (1200848116949975 / 549755813888)"
      12 7157078793984190]
  by simp

lemma toFixed_650933: "toFixed (Fin (3578539396992095 / 549755813888)) 2 = ''6509.33''"
  by (simp add: toFixed_def Let_def showNat.simps digitChar_def)

lemma parse_650933: "parseFloat ''6509.33'' = Fin (3578542012015575 / 549755813888)"
  using rd_cert [of "650933 / 100" 12 7157084024031150] by (simp add: parse_defs)

lemma product_650933:
  "nmul (Fin (3578542012015575 / 549755813888)) (Fin (8445035353499495 / 18446744073709551616))
     = Fin (6710390866405623 / 2251799813685248)"
  using rd_cert [of "3578542012015575 / 549755813888 * (8445035353499495 / 18446744073709551616)"
      1 6710390866405623]
  by simp

lemma toFixed_29800: "toFixed (Fin (6710390866405623 / 2251799813685248)) 4 = ''2.9800''"
  by (simp add: toFixed_def Let_def showNat.simps digitChar_def)

lemma parse_29800: "parseFloat ''2.9800'' = Fin (6710363444782039 / 2251799813685248)"
  using rd_cert [of "298 / 100" 1 6710363444782039] by (simp add: parse_defs)

lemma convert_298001: "calculateExchangeAmount ''2.98001'' ETH USDT = ''6509.33''"
proof -
  have "calculateExchangeAmount ''2.98001'' ETH USDT
        = toFixed (nmul (parseFloat ''2.98001'') (rate ETH USDT)) (precision USDT)"
    by (rule calculateExchangeAmount_parsed) (simp_all add: parse_298001)
  also have "\<dots> = ''6509.33''"
    unfolding parse_298001 rate_values product_298001 precision.simps by (rule toFixed_650933)
  finally show ?thesis .
qed

lemma convert_650933: "calculateExchangeAmount ''6509.33'' USDT ETH = ''2.9800''"
proof -
  have "calculateExchangeAmount ''6509.33'' USDT ETH
        = toFixed (nmul (parseFloat ''6509.33'') (rate USDT ETH)) (precision ETH)"
    by (rule calculateExchangeAmount_parsed) (simp_all add: parse_650933)
  also have "\<dots> = ''2.9800''"
    unfolding parse_650933 rate_values product_650933 precision.simps by (rule toFixed_29800)
  finally show ?thesis .
qed

lemma validate_298001: "validateAmount ''2.98001'' ETH = INSUFFICIENT_ETH"
proof -
  have "isNumericInput ''2.98001''"
    by (simp add: isNumericInput_def numericPattern_def isDigit_def)
  moreover have "\<not> isWithinBalance ''2.98001'' (balance ETH)"
    by (simp add: isWithinBalance_def Let_def parse_298001 balance_values)
  ultimately show ?thesis by (simp add: validateAmount_def)
qed

lemma validate_29800: "validateAmount ''2.9800'' ETH = []"
proof -
  have "isNumericInput ''2.9800''"
    by (simp add: isNumericInput_def numericPattern_def isDigit_def)
  moreover have "isWithinBalance ''2.9800'' (balance ETH)"
    by (simp add: isWithinBalance_def Let_def parse_29800 balance_values)
  ultimately show ?thesis by (simp add: validateAmount_def)
qed

text \<open>
  The send amount \<^verbatim>\<open>"2.98001"\<close> exceeds the ETH balance and the handler flags it. The
  effect on the receive amount then validates \<^verbatim>\<open>"2.9800"\<close>, the send amount computed
  back from \<^verbatim>\<open>"6509.33"\<close>, finds it within the balance and clears the flag: after the
  render the confirm button is enabled.
\<close>

lemma excess_amount_unflagged:
  "sendError (handleSendAmountChange (mount (Fin 0)) ''2.98001'' (Fin 0)) = INSUFFICIENT_ETH
   \<and> sendAmount (step (mount (Fin 0)) (SendChange ''2.98001'' (Fin 0))) = ''2.98001''
   \<and> sendError (step (mount (Fin 0)) (SendChange ''2.98001'' (Fin 0))) = []
   \<and> enabled (step (mount (Fin 0)) (SendChange ''2.98001'' (Fin 0))) Confirm"
proof -
  define h where "h = handleSendAmountChange (mount (Fin 0)) ''2.98001'' (Fin 0)"
  have raw: "stripCommas ''2.98001'' = ''2.98001''" by (simp add: stripCommas_def)
  have cur: "sendCurrency (mount (Fin 0)) = ETH" "receiveCurrency (mount (Fin 0)) = USDT"
    by (simp_all add: mount_currencies)
  have hf: "sendError h = INSUFFICIENT_ETH" "sendAmount h = ''2.98001''"
    "receiveAmount h = ''6509.33''" "receiveError h = []" "isLoading h = False"
    "isSuccess h = False" "sendCurrency h = ETH" "receiveCurrency h = USDT"
    unfolding h_def
    by (simp_all add: handleSendAmountChange_def Let_def raw cur validate_298001
          convert_298001 insufficient_not_format mount_fields)
  define a where "a = sendEffect h h"
  have a: "a = h"
    by (simp add: a_def sendEffect_def Let_def hf validate_298001)
  define e where "e = receiveEffect h a"
  have ef: "sendError e = []" "sendAmount e = ''2.98001''" "receiveError e = []"
    "isLoading e = False" "isSuccess e = False"
    by (simp_all add: e_def a receiveEffect_def Let_def hf convert_650933 validate_29800
          insufficient_not_format)
  have st: "step (mount (Fin 0)) (SendChange ''2.98001'' (Fin 0)) = e"
    by (simp add: step_def runEffects_def Let_def h_def [symmetric] hf mount_fields
          a_def [symmetric] e_def [symmetric])
  show ?thesis
    unfolding st h_def [symmetric] using hf(1) ef by (simp add: confirmDisabled_def)
qed

end
